theory Spec2Isabelle
  imports Main "HOL-Library.Sublist"
begin

section \<open>The OCR screen of reshipi: \<open>src/app/(tabs)/ocr.tsx\<close>\<close>

text \<open>
  The screen is one React component, \<open>OCRScreen\<close>, with four state variables
  (\<open>imageUri\<close>, \<open>ocrText\<close>, \<open>isLoading\<close>, \<open>apiConfigured\<close>), one mount effect and two
  asynchronous handlers, \<open>pickImage\<close> and \<open>sendToOCR\<close>. The embedding keeps each handler
  as a function from the answers of its collaborators (the configuration, the permission
  prompt, the picker, the network) to the ordered list of the effects it performs; the
  component state after a run is the fold of these effects over the state before it.

  JavaScript strings are modelled as \<open>string\<close>, holding the UTF-8 bytes of the text: the
  Chinese literals of the source are written out byte by byte, and concatenation is the
  concatenation of the source.
\<close>

subsection \<open>The string literals of the source\<close>

definition API_CONFIG_endpoint :: string where
  \<comment> \<open>lines 8-10: \<open>API_CONFIG.endpoint\<close>\<close>
  "API_CONFIG_endpoint = ''https://vision.googleapis.com/v1/images:annotate''"

definition log_key_configured :: string where
  \<comment> \<open>line 25: 'API key is configured'\<close>
  "log_key_configured =
     ''API''
     @ [CHR 0xE5, CHR 0xAF, CHR 0x86, CHR 0xE9, CHR 0x92, CHR 0xA5, CHR 0xE5, CHR 0xB7, CHR 0xB2,
      CHR 0xE9, CHR 0x85, CHR 0x8D, CHR 0xE7, CHR 0xBD, CHR 0xAE]"

definition log_key_missing :: string where
  \<comment> \<open>line 29: 'API key is not configured, OCR will be unavailable'\<close>
  "log_key_missing =
     ''API''
     @ [CHR 0xE5, CHR 0xAF, CHR 0x86, CHR 0xE9, CHR 0x92, CHR 0xA5, CHR 0xE6, CHR 0x9C, CHR 0xAA,
      CHR 0xE9, CHR 0x85, CHR 0x8D, CHR 0xE7, CHR 0xBD, CHR 0xAE, CHR 0xEF, CHR 0xBC, CHR 0x8C]
     @ ''OCR''
     @ [CHR 0xE5, CHR 0x8A, CHR 0x9F, CHR 0xE8, CHR 0x83, CHR 0xBD, CHR 0xE5, CHR 0xB0, CHR 0x86,
      CHR 0xE4, CHR 0xB8, CHR 0x8D, CHR 0xE5, CHR 0x8F, CHR 0xAF, CHR 0xE7, CHR 0x94, CHR 0xA8]"

definition msg_config_title :: string where
  \<comment> \<open>line 38, title: 'Configuration error'\<close>
  "msg_config_title =
     [CHR 0xE9, CHR 0x85, CHR 0x8D, CHR 0xE7, CHR 0xBD, CHR 0xAE, CHR 0xE9, CHR 0x94, CHR 0x99,
      CHR 0xE8, CHR 0xAF, CHR 0xAF]"

definition msg_config_body :: string where
  \<comment> \<open>line 38, message: 'API key is not configured, set up app.config.js and the .env file first'\<close>
  "msg_config_body =
     ''API''
     @ [CHR 0xE5, CHR 0xAF, CHR 0x86, CHR 0xE9, CHR 0x92, CHR 0xA5, CHR 0xE6, CHR 0x9C, CHR 0xAA,
      CHR 0xE9, CHR 0x85, CHR 0x8D, CHR 0xE7, CHR 0xBD, CHR 0xAE, CHR 0xEF, CHR 0xBC, CHR 0x8C,
      CHR 0xE8, CHR 0xAF, CHR 0xB7, CHR 0xE5, CHR 0x85, CHR 0x88, CHR 0xE8, CHR 0xAE, CHR 0xBE,
      CHR 0xE7, CHR 0xBD, CHR 0xAE]
     @ ''app.config.js''
     @ [CHR 0xE5, CHR 0x92, CHR 0x8C]
     @ ''.env''
     @ [CHR 0xE6, CHR 0x96, CHR 0x87, CHR 0xE4, CHR 0xBB, CHR 0xB6]"

definition msg_permission_title :: string where
  \<comment> \<open>line 46, title: 'Permission error'\<close>
  "msg_permission_title =
     [CHR 0xE6, CHR 0x9D, CHR 0x83, CHR 0xE9, CHR 0x99, CHR 0x90, CHR 0xE9, CHR 0x94, CHR 0x99,
      CHR 0xE8, CHR 0xAF, CHR 0xAF]"

definition msg_permission_body :: string where
  \<comment> \<open>line 46, message: 'Photo library access is required'\<close>
  "msg_permission_body =
     [CHR 0xE9, CHR 0x9C, CHR 0x80, CHR 0xE8, CHR 0xA6, CHR 0x81, CHR 0xE7, CHR 0x9B, CHR 0xB8,
      CHR 0xE5, CHR 0x86, CHR 0x8C, CHR 0xE8, CHR 0xAE, CHR 0xBF, CHR 0xE9, CHR 0x97, CHR 0xAE,
      CHR 0xE6, CHR 0x9D, CHR 0x83, CHR 0xE9, CHR 0x99, CHR 0x90]"

definition msg_error_title :: string where
  \<comment> \<open>lines 66, 72, 135, title: 'Error'\<close>
  "msg_error_title =
     [CHR 0xE9, CHR 0x94, CHR 0x99, CHR 0xE8, CHR 0xAF, CHR 0xAF]"

definition msg_no_image_data :: string where
  \<comment> \<open>line 66, message: 'Cannot get the image data'\<close>
  "msg_no_image_data =
     [CHR 0xE6, CHR 0x97, CHR 0xA0, CHR 0xE6, CHR 0xB3, CHR 0x95, CHR 0xE8, CHR 0x8E, CHR 0xB7,
      CHR 0xE5, CHR 0x8F, CHR 0x96, CHR 0xE5, CHR 0x9B, CHR 0xBE, CHR 0xE7, CHR 0x89, CHR 0x87,
      CHR 0xE6, CHR 0x95, CHR 0xB0, CHR 0xE6, CHR 0x8D, CHR 0xAE]"

definition log_pick_error :: string where
  \<comment> \<open>line 71: 'Image picking error:'\<close>
  "log_pick_error =
     [CHR 0xE5, CHR 0x9B, CHR 0xBE, CHR 0xE7, CHR 0x89, CHR 0x87, CHR 0xE9, CHR 0x80, CHR 0x89,
      CHR 0xE6, CHR 0x8B, CHR 0xA9, CHR 0xE9, CHR 0x94, CHR 0x99, CHR 0xE8, CHR 0xAF, CHR 0xAF]
     @ '':''"

definition msg_pick_error :: string where
  \<comment> \<open>line 72, message: 'An error occurred while picking the image'\<close>
  "msg_pick_error =
     [CHR 0xE9, CHR 0x80, CHR 0x89, CHR 0xE6, CHR 0x8B, CHR 0xA9, CHR 0xE5, CHR 0x9B, CHR 0xBE,
      CHR 0xE7, CHR 0x89, CHR 0x87, CHR 0xE6, CHR 0x97, CHR 0xB6, CHR 0xE5, CHR 0x8F, CHR 0x91,
      CHR 0xE7, CHR 0x94, CHR 0x9F, CHR 0xE9, CHR 0x94, CHR 0x99, CHR 0xE8, CHR 0xAF, CHR 0xAF]"

definition msg_no_key :: string where
  \<comment> \<open>line 86: 'API key is not configured'\<close>
  "msg_no_key =
     ''API''
     @ [CHR 0xE5, CHR 0xAF, CHR 0x86, CHR 0xE9, CHR 0x92, CHR 0xA5, CHR 0xE6, CHR 0x9C, CHR 0xAA,
      CHR 0xE9, CHR 0x85, CHR 0x8D, CHR 0xE7, CHR 0xBD, CHR 0xAE]"

definition log_sending :: string where
  \<comment> \<open>line 99: 'Sending the OCR request...'\<close>
  "log_sending =
     [CHR 0xE6, CHR 0xAD, CHR 0xA3, CHR 0xE5, CHR 0x9C, CHR 0xA8, CHR 0xE5, CHR 0x8F, CHR 0x91,
      CHR 0xE9, CHR 0x80, CHR 0x81]
     @ ''OCR''
     @ [CHR 0xE8, CHR 0xAF, CHR 0xB7, CHR 0xE6, CHR 0xB1, CHR 0x82]
     @ ''...''"

definition api_error_prefix :: string where
  \<comment> \<open>line 114: 'API error (' , before the status code\<close>
  "api_error_prefix =
     ''API''
     @ [CHR 0xE9, CHR 0x94, CHR 0x99, CHR 0xE8, CHR 0xAF, CHR 0xAF]
     @ '' (''"

definition msg_no_text :: string where
  \<comment> \<open>line 125: 'No text detected, please try another image.'\<close>
  "msg_no_text =
     [CHR 0xE6, CHR 0x9C, CHR 0xAA, CHR 0xE6, CHR 0xA3, CHR 0x80, CHR 0xE6, CHR 0xB5, CHR 0x8B,
      CHR 0xE5, CHR 0x88, CHR 0xB0, CHR 0xE6, CHR 0x96, CHR 0x87, CHR 0xE6, CHR 0x9C, CHR 0xAC,
      CHR 0xEF, CHR 0xBC, CHR 0x8C, CHR 0xE8, CHR 0xAF, CHR 0xB7, CHR 0xE5, CHR 0xB0, CHR 0x9D,
      CHR 0xE8, CHR 0xAF, CHR 0x95, CHR 0xE5, CHR 0x85, CHR 0xB6, CHR 0xE4, CHR 0xBB, CHR 0x96,
      CHR 0xE5, CHR 0x9B, CHR 0xBE, CHR 0xE7, CHR 0x89, CHR 0x87, CHR 0xE3, CHR 0x80, CHR 0x82]"

definition log_ocr_error :: string where
  \<comment> \<open>line 132: 'OCR processing error:'\<close>
  "log_ocr_error =
     ''OCR''
     @ [CHR 0xE5, CHR 0xA4, CHR 0x84, CHR 0xE7, CHR 0x90, CHR 0x86, CHR 0xE9, CHR 0x94, CHR 0x99,
      CHR 0xE8, CHR 0xAF, CHR 0xAF]
     @ '':''"

definition fail_prefix :: string where
  \<comment> \<open>line 134: 'Recognition failed: '\<close>
  "fail_prefix =
     [CHR 0xE8, CHR 0xAF, CHR 0x86, CHR 0xE5, CHR 0x88, CHR 0xAB, CHR 0xE5, CHR 0xA4, CHR 0xB1,
      CHR 0xE8, CHR 0xB4, CHR 0xA5]
     @ '': ''"

definition msg_unknown_error :: string where
  \<comment> \<open>lines 134, 135: 'Unknown error'\<close>
  "msg_unknown_error =
     [CHR 0xE6, CHR 0x9C, CHR 0xAA, CHR 0xE7, CHR 0x9F, CHR 0xA5, CHR 0xE9, CHR 0x94, CHR 0x99,
      CHR 0xE8, CHR 0xAF, CHR 0xAF]"

definition alert_prefix :: string where
  \<comment> \<open>line 135: 'An error occurred during OCR processing: '\<close>
  "alert_prefix =
     ''OCR''
     @ [CHR 0xE5, CHR 0xA4, CHR 0x84, CHR 0xE7, CHR 0x90, CHR 0x86, CHR 0xE6, CHR 0x97, CHR 0xB6,
      CHR 0xE5, CHR 0x8F, CHR 0x91, CHR 0xE7, CHR 0x94, CHR 0x9F, CHR 0xE9, CHR 0x94, CHR 0x99,
      CHR 0xE8, CHR 0xAF, CHR 0xAF]
     @ '': ''"

subsection \<open>JavaScript values\<close>

text \<open>
  What \<open>res.json()\<close> and the configuration deliver is a JSON value. \<open>undefined\<close> is
  \<open>None\<close> of \<open>json option\<close>. An object is the list of its entries, looked up by key.
  Numbers are the integers, printed in decimal; fractions and exponents are left out.
\<close>

datatype json =
    JNull
  | JBool bool
  | JNum int
  | JStr string
  | JArr "json list"
  | JObj "(string \<times> json) list"

text \<open>The value a \<open>throw\<close> or a rejected promise carries: an \<open>Error\<close> instance with its
  message (\<open>new Error(m)\<close>, and the engine's \<open>TypeError\<close> and \<open>SyntaxError\<close>), or
  anything else. The handlers only test \<open>error instanceof Error\<close> and read
  \<open>error.message\<close>.\<close>

datatype thrown = Error string | NotAnError

definition error_message :: "thrown \<Rightarrow> string" where
  \<comment> \<open>lines 134, 135: \<open>error instanceof Error ? error.message : '...'\<close>\<close>
  "error_message e = (case e of Error m \<Rightarrow> m | NotAnError \<Rightarrow> msg_unknown_error)"

fun truthy_value :: "json \<Rightarrow> bool" where
  "truthy_value JNull = False"
| "truthy_value (JBool b) = b"
| "truthy_value (JNum n) = (n \<noteq> 0)"
| "truthy_value (JStr s) = (s \<noteq> [])"
| "truthy_value (JArr xs) = True"
| "truthy_value (JObj kvs) = True"

definition truthy :: "json option \<Rightarrow> bool" where
  \<comment> \<open>the test of \<open>if (x)\<close>, \<open>!x\<close> and \<open>x || y\<close>; \<open>undefined\<close> is falsy\<close>
  "truthy x = (case x of None \<Rightarrow> False | Some v \<Rightarrow> truthy_value v)"

definition or_else :: "json option \<Rightarrow> json \<Rightarrow> json" where
  \<comment> \<open>\<open>x || y\<close>\<close>
  "or_else x y = (case x of None \<Rightarrow> y | Some v \<Rightarrow> if truthy_value v then v else y)"

definition member :: "(string \<Rightarrow> string) \<Rightarrow> json \<Rightarrow> string \<Rightarrow> thrown + json option" where
  \<comment> \<open>\<open>x.p\<close> on a value that is not \<open>undefined\<close>: reading a property of \<open>null\<close> throws a
     \<open>TypeError\<close>, whose message the engine chooses (\<open>type_error p\<close>); an object gives
     the entry or \<open>undefined\<close>; the properties the source reads (\<open>error\<close>, \<open>message\<close>,
     \<open>responses\<close>, \<open>fullTextAnnotation\<close>, \<open>text\<close>) are \<open>undefined\<close> on an array, a string,
     a number and a boolean\<close>
  "member type_error x p =
     (case x of
        JNull \<Rightarrow> Inl (Error (type_error p))
      | JObj kvs \<Rightarrow> Inr (map_of kvs p)
      | _ \<Rightarrow> Inr None)"

definition opt_member :: "json option \<Rightarrow> string \<Rightarrow> json option" where
  \<comment> \<open>\<open>x?.p\<close>: \<open>undefined\<close> when \<open>x\<close> is \<open>undefined\<close> or \<open>null\<close>, else \<open>x.p\<close>\<close>
  "opt_member x p =
     (case x of
        Some (JObj kvs) \<Rightarrow> map_of kvs p
      | _ \<Rightarrow> None)"

definition opt_index0 :: "json option \<Rightarrow> json option" where
  \<comment> \<open>\<open>x?.[0]\<close>: the first element of an array, the entry \<open>"0"\<close> of an object, the first
     unit of a string (a string again, which is all the source can observe of it)\<close>
  "opt_index0 x =
     (case x of
        Some (JArr xs) \<Rightarrow> (case xs of [] \<Rightarrow> None | y # _ \<Rightarrow> Some y)
      | Some (JObj kvs) \<Rightarrow> map_of kvs ''0''
      | Some (JStr s) \<Rightarrow> (if s = [] then None else Some (JStr (take 1 s)))
      | _ \<Rightarrow> None)"

subsection \<open>Conversion to text\<close>

function string_of_nat :: "nat \<Rightarrow> string" where
  "string_of_nat n =
     (if n < 10 then [''0123456789'' ! n]
      else string_of_nat (n div 10) @ [''0123456789'' ! (n mod 10)])"
  by pat_completeness auto
termination
  by (relation "measure id") auto

definition string_of_int :: "int \<Rightarrow> string" where
  "string_of_int i =
     (if i < 0 then ''-'' @ string_of_nat (nat (- i)) else string_of_nat (nat i))"

definition join :: "string \<Rightarrow> string list \<Rightarrow> string" where
  \<comment> \<open>the pieces with the separator between them\<close>
  "join sep xs = (case xs of [] \<Rightarrow> [] | y # ys \<Rightarrow> y @ concat (map (\<lambda>z. sep @ z) ys))"

fun js_String :: "json \<Rightarrow> string" where
  \<comment> \<open>what a template literal \<open>`${x}`\<close> inserts for \<open>x\<close>: a string as it is; an array as
     its elements joined by commas, \<open>null\<close> elements as the empty string\<close>
  "js_String JNull = ''null''"
| "js_String (JBool b) = (if b then ''true'' else ''false'')"
| "js_String (JNum n) = string_of_int n"
| "js_String (JStr s) = s"
| "js_String (JArr xs) = join '','' (map (\<lambda>x. if x = JNull then [] else js_String x) xs)"
| "js_String (JObj kvs) = ''[object Object]''"

definition hex_digit :: "nat \<Rightarrow> char" where
  "hex_digit d = ''0123456789abcdef'' ! d"

definition json_escape :: "char \<Rightarrow> string" where
  \<comment> \<open>\<open>JSON.stringify\<close> on one character of a string\<close>
  "json_escape c =
     (if c = CHR 0x22 then [CHR 0x5C, CHR 0x22]
      else if c = CHR 0x5C then [CHR 0x5C, CHR 0x5C]
      else if c = CHR 0x08 then [CHR 0x5C, CHR ''b'']
      else if c = CHR 0x09 then [CHR 0x5C, CHR ''t'']
      else if c = CHR 0x0A then [CHR 0x5C, CHR ''n'']
      else if c = CHR 0x0C then [CHR 0x5C, CHR ''f'']
      else if c = CHR 0x0D then [CHR 0x5C, CHR ''r'']
      else if (of_char c :: nat) < 32
        then [CHR 0x5C, CHR ''u'', CHR ''0'', CHR ''0'',
              hex_digit (of_char c div 16), hex_digit (of_char c mod 16)]
      else [c])"

definition json_quote :: "string \<Rightarrow> string" where
  "json_quote s = [CHR 0x22] @ concat (map json_escape s) @ [CHR 0x22]"

fun JSON_stringify :: "json \<Rightarrow> string" where
  "JSON_stringify JNull = ''null''"
| "JSON_stringify (JBool b) = (if b then ''true'' else ''false'')"
| "JSON_stringify (JNum n) = string_of_int n"
| "JSON_stringify (JStr s) = json_quote s"
| "JSON_stringify (JArr xs) = ''['' @ join '','' (map JSON_stringify xs) @ '']''"
| "JSON_stringify (JObj kvs) =
     ''{'' @ join '','' (map (\<lambda>kv. json_quote (fst kv) @ '':'' @ JSON_stringify (snd kv)) kvs) @ ''}''"

subsection \<open>Effects, collaborators and component state\<close>

datatype level = Log | Warn | Err

record picker_options =
  opt_base64 :: bool
  opt_allowsEditing :: bool
  opt_quality :: nat

record request =
  req_url :: string
  req_method :: string
  req_headers :: "(string \<times> string) list"
  req_body :: string

text \<open>Everything a handler does to the outside, in the order it does it: reading the
  configuration, logging, the four state setters, the modal alert, and the three calls
  it awaits.\<close>

datatype event =
    ReadConfig                              \<comment> \<open>\<open>Constants.expoConfig?.extra?.apiKey\<close>\<close>
  | Console level string "thrown option"    \<comment> \<open>\<open>console.log\<close>, \<open>.warn\<close>, \<open>.error\<close>\<close>
  | SetApiConfigured bool
  | SetImageUri string
  | SetOcrText json
  | SetIsLoading bool
  | Alert string string                     \<comment> \<open>\<open>Alert.alert(title, message)\<close>\<close>
  | RequestPermission                       \<comment> \<open>\<open>ImagePicker.requestMediaLibraryPermissionsAsync()\<close>\<close>
  | LaunchPicker picker_options             \<comment> \<open>\<open>ImagePicker.launchImageLibraryAsync(options)\<close>\<close>
  | Fetch request                           \<comment> \<open>\<open>fetch(url, init)\<close>\<close>

record response =
  res_ok :: bool
  res_status :: nat
  res_statusText :: string
  res_json :: "thrown + json"               \<comment> \<open>what \<open>res.json()\<close> settles with\<close>

record asset =
  asset_uri :: string
  asset_base64 :: "string option"           \<comment> \<open>\<open>null\<close> and \<open>undefined\<close> are \<open>None\<close>\<close>

datatype picker_result = Canceled | Selected "asset list"

text \<open>The answers of the collaborators during one run of a handler. Each awaited call
  settles: \<open>Inl\<close> is a rejection, thrown at the \<open>await\<close>. A run is followed to its
  end; a call that never settles leaves it waiting there (see the pending runs below).\<close>

record env =
  env_apiKey :: "json option"               \<comment> \<open>the configuration value, when read\<close>
  env_permission :: "thrown + bool"         \<comment> \<open>\<open>permission.granted\<close>\<close>
  env_picker :: "thrown + picker_result"
  env_fetch :: "request \<Rightarrow> thrown + response"
  env_type_error :: "string \<Rightarrow> string"       \<comment> \<open>the engine's \<open>TypeError\<close> message, by property\<close>

text \<open>The four \<open>useState\<close> variables. \<open>ocrText\<close> is declared a string, and
  \<open>setOcrText(text)\<close> stores the untyped \<open>text\<close> of the response as it comes, so the model
  keeps a JSON value there.\<close>

record ocr_screen =
  imageUri :: "string option"
  ocrText :: json
  isLoading :: bool
  apiConfigured :: bool

definition initial_screen :: ocr_screen where
  \<comment> \<open>lines 14-17: the \<open>useState\<close> initial values\<close>
  "initial_screen = \<lparr>imageUri = None, ocrText = JStr [], isLoading = False, apiConfigured = False\<rparr>"

fun apply_event :: "ocr_screen \<Rightarrow> event \<Rightarrow> ocr_screen" where
  "apply_event s (SetApiConfigured b) = s\<lparr>apiConfigured := b\<rparr>"
| "apply_event s (SetImageUri u) = s\<lparr>imageUri := Some u\<rparr>"
| "apply_event s (SetOcrText t) = s\<lparr>ocrText := t\<rparr>"
| "apply_event s (SetIsLoading b) = s\<lparr>isLoading := b\<rparr>"
| "apply_event s _ = s"

definition exec :: "event list \<Rightarrow> ocr_screen \<Rightarrow> ocr_screen" where
  "exec evs s = foldl apply_event s evs"

definition button_disabled :: "ocr_screen \<Rightarrow> bool" where
  \<comment> \<open>line 165: \<open>disabled={isLoading || !apiConfigured}\<close>\<close>
  "button_disabled s = (isLoading s \<or> \<not> apiConfigured s)"

subsection \<open>Computations: effects so far, then a value or a thrown error\<close>

type_synonym 'a comp = "event list \<times> (thrown + 'a)"

definition ret :: "'a \<Rightarrow> 'a comp" where
  "ret x = ([], Inr x)"

definition throw :: "thrown \<Rightarrow> 'a comp" where
  "throw e = ([], Inl e)"

definition emit :: "event \<Rightarrow> unit comp" where
  "emit ev = ([ev], Inr ())"

definition await :: "event \<Rightarrow> thrown + 'a \<Rightarrow> 'a comp" where
  \<comment> \<open>the call is made, then its promise settles\<close>
  "await call answer = ([call], answer)"

definition lift :: "thrown + 'a \<Rightarrow> 'a comp" where
  "lift r = ([], r)"

definition seq :: "'a comp \<Rightarrow> ('a \<Rightarrow> 'b comp) \<Rightarrow> 'b comp" where
  "seq m f =
     (case m of
        (es, Inl e) \<Rightarrow> (es, Inl e)
      | (es, Inr x) \<Rightarrow> (case f x of (es', r) \<Rightarrow> (es @ es', r)))"

definition try_catch :: "'a comp \<Rightarrow> (thrown \<Rightarrow> 'a comp) \<Rightarrow> 'a comp" where
  "try_catch m h =
     (case m of
        (es, Inl e) \<Rightarrow> (case h e of (es', r) \<Rightarrow> (es @ es', r))
      | (es, Inr x) \<Rightarrow> (es, Inr x))"

definition try_finally :: "'a comp \<Rightarrow> unit comp \<Rightarrow> 'a comp" where
  \<comment> \<open>the block runs on every exit; if it throws, its error replaces the outcome\<close>
  "try_finally m fin =
     (case m of (es, r) \<Rightarrow>
        (case fin of
           (es', Inl e') \<Rightarrow> (es @ es', Inl e')
         | (es', Inr u) \<Rightarrow> (es @ es', r)))"

definition not_awaited :: "'a comp \<Rightarrow> unit comp" where
  \<comment> \<open>a call of an async function whose promise is dropped: its effects happen, its
     outcome reaches nobody\<close>
  "not_awaited m = (fst m, Inr ())"

subsection \<open>The mount effect, lines 20-31\<close>

definition useEffect_mount :: "json option \<Rightarrow> event list" where
  "useEffect_mount apiKey =
     ReadConfig #
     (if truthy apiKey
      then [Console Log log_key_configured None, SetApiConfigured True]
      else [Console Warn log_key_missing None])"

subsection \<open>\<open>sendToOCR\<close>, lines 77-140\<close>

definition ocr_request_body :: "string \<Rightarrow> json" where
  \<comment> \<open>lines 90-97\<close>
  "ocr_request_body base64 =
     JObj [(''requests'',
       JArr [JObj [(''image'', JObj [(''content'', JStr base64)]),
                   (''features'', JArr [JObj [(''type'', JStr ''TEXT_DETECTION'')]])]])]"

definition ocr_request :: "json \<Rightarrow> string \<Rightarrow> request" where
  \<comment> \<open>lines 101-108\<close>
  "ocr_request apiKey base64 =
     \<lparr>req_url = API_CONFIG_endpoint @ ''?key='' @ js_String apiKey,
      req_method = ''POST'',
      req_headers = [(''Content-Type'', ''application/json'')],
      req_body = JSON_stringify (ocr_request_body base64)\<rparr>"

definition response_text :: "(string \<Rightarrow> string) \<Rightarrow> json \<Rightarrow> thrown + json option" where
  \<comment> \<open>line 120: \<open>data.responses?.[0]?.fullTextAnnotation?.text\<close>\<close>
  "response_text type_error data =
     (case member type_error data ''responses'' of
        Inl e \<Rightarrow> Inl e
      | Inr responses \<Rightarrow>
          Inr (opt_member (opt_member (opt_index0 responses) ''fullTextAnnotation'') ''text''))"

definition error_data_message :: "(string \<Rightarrow> string) \<Rightarrow> json \<Rightarrow> thrown + json option" where
  \<comment> \<open>line 114: \<open>errorData.error?.message\<close>\<close>
  "error_data_message type_error errorData =
     (case member type_error errorData ''error'' of
        Inl e \<Rightarrow> Inl e
      | Inr err \<Rightarrow> Inr (opt_member err ''message''))"

definition api_error :: "response \<Rightarrow> json option \<Rightarrow> thrown" where
  \<comment> \<open>line 114: \<open>new Error(`API... (${res.status}): ${message || res.statusText}`)\<close>\<close>
  "api_error res message =
     Error (api_error_prefix @ string_of_nat (res_status res) @ ''): '' @
            js_String (or_else message (JStr (res_statusText res))))"

definition interpret_response :: "(string \<Rightarrow> string) \<Rightarrow> response \<Rightarrow> unit comp" where
  \<comment> \<open>lines 110-129: from the settled \<open>fetch\<close> to the end of the \<open>try\<close> block\<close>
  "interpret_response type_error res =
     (if \<not> res_ok res then
        seq (try_catch (lift (res_json res)) (\<lambda>_. ret (JObj []))) (\<lambda>errorData.
        seq (lift (error_data_message type_error errorData)) (\<lambda>message.
        throw (api_error res message)))
      else
        seq (lift (res_json res)) (\<lambda>data.
        seq (lift (response_text type_error data)) (\<lambda>text.
        case text of
          None \<Rightarrow> emit (SetOcrText (JStr msg_no_text))
        | Some t \<Rightarrow>
            if \<not> truthy_value t then emit (SetOcrText (JStr msg_no_text))
            else emit (SetOcrText t))))"

definition sendToOCR_try :: "env \<Rightarrow> string \<Rightarrow> unit comp" where
  \<comment> \<open>the \<open>try\<close> block, lines 81-129\<close>
  "sendToOCR_try env base64 =
     seq (emit ReadConfig) (\<lambda>_.
     case env_apiKey env of
       None \<Rightarrow> throw (Error msg_no_key)
     | Some apiKey \<Rightarrow>
         if \<not> truthy_value apiKey then throw (Error msg_no_key)
         else
           seq (emit (Console Log log_sending None)) (\<lambda>_.
           seq (await (Fetch (ocr_request apiKey base64))
                      (env_fetch env (ocr_request apiKey base64))) (\<lambda>res.
           interpret_response (env_type_error env) res)))"

definition sendToOCR_catch :: "thrown \<Rightarrow> unit comp" where
  \<comment> \<open>the \<open>catch\<close> block, lines 130-135\<close>
  "sendToOCR_catch error =
     seq (emit (Console Err log_ocr_error (Some error))) (\<lambda>_.
     seq (emit (SetOcrText (JStr (fail_prefix @ error_message error)))) (\<lambda>_.
     emit (Alert msg_error_title (alert_prefix @ error_message error))))"

definition sendToOCR :: "env \<Rightarrow> string \<Rightarrow> unit comp" where
  "sendToOCR env base64 =
     seq (emit (SetIsLoading True)) (\<lambda>_.
     try_finally (try_catch (sendToOCR_try env base64) sendToOCR_catch)
                 (emit (SetIsLoading False)))"

subsection \<open>\<open>pickImage\<close>, lines 34-74\<close>

definition picker_call :: event where
  \<comment> \<open>lines 51-55\<close>
  "picker_call = LaunchPicker \<lparr>opt_base64 = True, opt_allowsEditing = True, opt_quality = 1\<rparr>"

definition pickImage_try :: "env \<Rightarrow> ocr_screen \<Rightarrow> unit comp" where
  \<comment> \<open>the \<open>try\<close> block, lines 36-68; a \<open>return\<close> ends the handler\<close>
  "pickImage_try env s =
     (if \<not> apiConfigured s then emit (Alert msg_config_title msg_config_body)
      else
        seq (await RequestPermission (env_permission env)) (\<lambda>granted.
        if \<not> granted then emit (Alert msg_permission_title msg_permission_body)
        else
          seq (await picker_call (env_picker env)) (\<lambda>result.
          case result of
            Canceled \<Rightarrow> ret ()
          | Selected assets \<Rightarrow>
              (case assets of
                 [] \<Rightarrow> throw (Error (env_type_error env ''uri''))
               | asset # _ \<Rightarrow>
                   seq (emit (SetImageUri (asset_uri asset))) (\<lambda>_.
                   case asset_base64 asset of
                     None \<Rightarrow> emit (Alert msg_error_title msg_no_image_data)
                   | Some base64 \<Rightarrow>
                       if base64 = [] then emit (Alert msg_error_title msg_no_image_data)
                       else not_awaited (sendToOCR env base64))))))"

definition pickImage_catch :: "thrown \<Rightarrow> unit comp" where
  \<comment> \<open>the \<open>catch\<close> block, lines 69-73\<close>
  "pickImage_catch error =
     seq (emit (Console Err log_pick_error (Some error))) (\<lambda>_.
     emit (Alert msg_error_title msg_pick_error))"

definition pickImage :: "env \<Rightarrow> ocr_screen \<Rightarrow> unit comp" where
  "pickImage env s = try_catch (pickImage_try env s) pickImage_catch"

subsection \<open>What a trace shows\<close>

fun result_texts :: "event list \<Rightarrow> json list" where
  \<comment> \<open>the values given to \<open>setOcrText\<close>, in order\<close>
  "result_texts [] = []"
| "result_texts (SetOcrText t # es) = t # result_texts es"
| "result_texts (_ # es) = result_texts es"

fun alerts :: "event list \<Rightarrow> (string \<times> string) list" where
  \<comment> \<open>title and message of each modal alert, in order\<close>
  "alerts [] = []"
| "alerts (Alert title message # es) = (title, message) # alerts es"
| "alerts (_ # es) = alerts es"

fun requests :: "event list \<Rightarrow> request list" where
  \<comment> \<open>the network requests issued, in order\<close>
  "requests [] = []"
| "requests (Fetch req # es) = req # requests es"
| "requests (_ # es) = requests es"

fun config_reads :: "event list \<Rightarrow> nat" where
  \<comment> \<open>how often the configuration is read\<close>
  "config_reads [] = 0"
| "config_reads (ReadConfig # es) = Suc (config_reads es)"
| "config_reads (_ # es) = config_reads es"

fun loading_after :: "event list \<Rightarrow> bool \<Rightarrow> bool" where
  \<comment> \<open>\<open>isLoading\<close> after the events, given its value before\<close>
  "loading_after [] b = b"
| "loading_after (SetIsLoading v # es) b = loading_after es v"
| "loading_after (_ # es) b = loading_after es b"

subsection \<open>Overlapping runs on the event loop\<close>

text \<open>
  A handler runs until its next \<open>await\<close> and gives the event loop back; it resumes when
  the awaited call settles. In between, the button can be pressed again whenever it is
  not disabled. A run's trace is cut at the three awaited calls: each piece is executed
  at once, and a run between two pieces is pending on the call that ended the piece
  before. (\<open>pickImage\<close> does not await \<open>sendToOCR\<close>, and reads no state after its gate, so
  the pieces of a run do not depend on what other runs do in between.)
\<close>

fun suspends :: "event \<Rightarrow> bool" where
  "suspends RequestPermission = True"
| "suspends (LaunchPicker opts) = True"
| "suspends (Fetch req) = True"
| "suspends _ = False"

fun is_fetch :: "event \<Rightarrow> bool" where
  "is_fetch (Fetch req) = True"
| "is_fetch _ = False"

fun split_at_awaits :: "event list \<Rightarrow> (event list \<times> event) list \<times> event list" where
  \<comment> \<open>the pieces that end in an awaited call, and the piece after the last one\<close>
  "split_at_awaits [] = ([], [])"
| "split_at_awaits (e # es) =
     (case split_at_awaits es of
        (segs, fin) \<Rightarrow>
          if suspends e then (([], e) # segs, fin)
          else (case segs of
                  [] \<Rightarrow> ([], e # fin)
                | (pre, call) # rest \<Rightarrow> ((e # pre, call) # rest, fin)))"

record pending_run =
  awaiting :: event                              \<comment> \<open>the call the run waits for\<close>
  segments :: "(event list \<times> event) list"       \<comment> \<open>what it does next, up to each further call\<close>
  final :: "event list"                          \<comment> \<open>what it does after its last call\<close>

record app =
  screen :: ocr_screen
  runs :: "pending_run list"

datatype action =
    Press env      \<comment> \<open>\<open>onPress={pickImage}\<close>; the run will get these answers\<close>
  | Settle nat     \<comment> \<open>the call awaited by the pending run at this position settles\<close>

definition advance ::
  "(event list \<times> event) list \<Rightarrow> event list \<Rightarrow> ocr_screen \<Rightarrow> ocr_screen \<times> pending_run option" where
  \<comment> \<open>run the next piece: up to the next awaited call, or to the end\<close>
  "advance segs fin s =
     (case segs of
        [] \<Rightarrow> (exec fin s, None)
      | (pre, call) # rest \<Rightarrow>
          (exec (pre @ [call]) s, Some \<lparr>awaiting = call, segments = rest, final = fin\<rparr>))"

definition step :: "action \<Rightarrow> app \<Rightarrow> app option" where
  "step x a =
     (case x of
        Press env \<Rightarrow>
          if button_disabled (screen a) then None
          else
            (case split_at_awaits (fst (pickImage env (screen a))) of
               (segs, fin) \<Rightarrow>
                 (case advance segs fin (screen a) of
                    (s', None) \<Rightarrow> Some (a\<lparr>screen := s'\<rparr>)
                  | (s', Some r) \<Rightarrow> Some \<lparr>screen = s', runs = runs a @ [r]\<rparr>))
      | Settle i \<Rightarrow>
          if length (runs a) \<le> i then None
          else
            (case advance (segments (runs a ! i)) (final (runs a ! i)) (screen a) of
               (s', None) \<Rightarrow> Some \<lparr>screen = s', runs = take i (runs a) @ drop (Suc i) (runs a)\<rparr>
             | (s', Some r) \<Rightarrow> Some \<lparr>screen = s', runs = (runs a)[i := r]\<rparr>))"

fun run_actions :: "action list \<Rightarrow> app \<Rightarrow> app option" where
  "run_actions [] a = Some a"
| "run_actions (x # xs) a = (case step x a of None \<Rightarrow> None | Some a' \<Rightarrow> run_actions xs a')"

definition in_flight :: "app \<Rightarrow> nat" where
  \<comment> \<open>the runs whose request is issued and not yet answered\<close>
  "in_flight a = length (filter (\<lambda>r. is_fetch (awaiting r)) (runs a))"

fun no_press_before_request :: "action list \<Rightarrow> app \<Rightarrow> bool" where
  \<comment> \<open>every press comes while no earlier run still waits for the permission prompt or
     the picker; a run whose request is in flight may be pending\<close>
  "no_press_before_request [] a = True"
| "no_press_before_request (x # xs) a =
     ((case x of
         Press env \<Rightarrow> list_all (\<lambda>r. is_fetch (awaiting r)) (runs a)
       | Settle i \<Rightarrow> True) \<and>
      (case step x a of None \<Rightarrow> True | Some a' \<Rightarrow> no_press_before_request xs a'))"

fun loading_tracks_fetch :: "bool \<Rightarrow> (event list \<times> event) list \<Rightarrow> event list \<Rightarrow> bool" where
  \<comment> \<open>of what is left of a run that resumes with \<open>isLoading = b\<close>: at each later wait
     \<open>isLoading\<close> is true exactly if the wait is for a \<open>fetch\<close>, and it is false at the end\<close>
  "loading_tracks_fetch b [] fin = (loading_after fin b = False)"
| "loading_tracks_fetch b ((pre, call) # rest) fin =
     (loading_after (pre @ [call]) b = is_fetch call \<and>
      loading_tracks_fetch (is_fetch call) rest fin)"

definition trace_tracks_fetch :: "bool \<Rightarrow> event list \<Rightarrow> bool" where
  "trace_tracks_fetch b es =
     (case split_at_awaits es of (segs, fin) \<Rightarrow> loading_tracks_fetch b segs fin)"

definition one_run_invariant :: "app \<Rightarrow> bool" where
  \<comment> \<open>at most one run is pending; \<open>isLoading\<close> is true exactly if it waits for its
     \<open>fetch\<close>, and what is left of it keeps that so\<close>
  "one_run_invariant a =
     (case runs a of
        [] \<Rightarrow> \<not> isLoading (screen a)
      | [r] \<Rightarrow>
          isLoading (screen a) = is_fetch (awaiting r) \<and>
          loading_tracks_fetch (is_fetch (awaiting r)) (segments r) (final r)
      | _ \<Rightarrow> False)"

definition mounted :: "json option \<Rightarrow> app" where
  \<comment> \<open>the screen after its mount effect, nothing pending\<close>
  "mounted apiKey = \<lparr>screen = exec (useEffect_mount apiKey) initial_screen, runs = []\<rparr>"

subsection \<open>Sample collaborators\<close>

definition receipt :: asset where
  "receipt = \<lparr>asset_uri = ''file:///receipt.jpg'', asset_base64 = Some ''aGVsbG8=''\<rparr>"

definition hello_body :: json where
  "hello_body =
     JObj [(''responses'',
       JArr [JObj [(''fullTextAnnotation'', JObj [(''text'', JStr ''Hello'')])]])]"

definition hello_response :: response where
  "hello_response =
     \<lparr>res_ok = True, res_status = 200, res_statusText = ''OK'', res_json = Inr hello_body\<rparr>"

definition null_success_response :: response where
  "null_success_response =
     \<lparr>res_ok = True, res_status = 200, res_statusText = ''OK'', res_json = Inr JNull\<rparr>"

definition bad_image_response :: response where
  "bad_image_response =
     \<lparr>res_ok = False, res_status = 400, res_statusText = ''Bad Request'',
      res_json = Inr (JObj [(''error'', JObj [(''message'', JStr ''Bad image'')])])\<rparr>"

definition null_body_response :: response where
  "null_body_response =
     \<lparr>res_ok = False, res_status = 500, res_statusText = ''Internal Server Error'',
      res_json = Inr JNull\<rparr>"

definition hello_env :: env where
  "hello_env =
     \<lparr>env_apiKey = Some (JStr ''KEY''),
      env_permission = Inr True,
      env_picker = Inr (Selected [receipt]),
      env_fetch = (\<lambda>req. Inr hello_response),
      env_type_error = (\<lambda>p. ''Cannot read property '' @ p @ '' of null'')\<rparr>"

definition configured_screen :: ocr_screen where
  "configured_screen = exec (useEffect_mount (Some (JStr ''KEY''))) initial_screen"

section \<open>Properties\<close>

subsection \<open>Traces of the combinators\<close>

lemmas comp_defs = ret_def throw_def emit_def await_def lift_def seq_def try_catch_def
  try_finally_def not_awaited_def

lemma exec_Nil: "exec [] s = s"
  by (simp add: exec_def)

lemma exec_Cons: "exec (e # es) s = exec es (apply_event s e)"
  by (simp add: exec_def)

lemma exec_append: "exec (xs @ ys) s = exec ys (exec xs s)"
  by (simp add: exec_def)

lemma sendToOCR_catch_eq:
  "sendToOCR_catch e =
     ([Console Err log_ocr_error (Some e), SetOcrText (JStr (fail_prefix @ error_message e)),
       Alert msg_error_title (alert_prefix @ error_message e)], Inr ())"
  by (simp add: sendToOCR_catch_def comp_defs)

lemma sendToOCR_trace:
  "fst (sendToOCR env base64) =
     SetIsLoading True # fst (sendToOCR_try env base64) @
       (case snd (sendToOCR_try env base64) of Inl e \<Rightarrow> fst (sendToOCR_catch e) | Inr u \<Rightarrow> []) @
       [SetIsLoading False]"
  by (cases "sendToOCR_try env base64")
     (auto simp: sendToOCR_def sendToOCR_catch_eq comp_defs split: sum.splits)

lemma sendToOCR_fulfils: "snd (sendToOCR env base64) = Inr ()"
  by (cases "sendToOCR_try env base64")
     (auto simp: sendToOCR_def sendToOCR_catch_eq comp_defs split: sum.splits)

lemma interpret_response_cases:
  "(\<exists>e. interpret_response te res = ([], Inl e)) \<or>
   (\<exists>t. interpret_response te res = ([SetOcrText t], Inr ()))"
  unfolding interpret_response_def
  by (auto simp: comp_defs split: option.splits sum.splits prod.splits)

lemma sendToOCR_try_unconfigured:
  "\<not> truthy (env_apiKey env) \<Longrightarrow> sendToOCR_try env base64 = ([ReadConfig], Inl (Error msg_no_key))"
  by (auto simp: sendToOCR_try_def truthy_def comp_defs split: option.splits)

lemma sendToOCR_try_rejected:
  "env_apiKey env = Some key \<Longrightarrow> truthy_value key \<Longrightarrow>
   env_fetch env (ocr_request key base64) = Inl e \<Longrightarrow>
     sendToOCR_try env base64 =
       ([ReadConfig, Console Log log_sending None, Fetch (ocr_request key base64)], Inl e)"
  by (simp add: sendToOCR_try_def comp_defs)

lemma sendToOCR_try_answered:
  "env_apiKey env = Some key \<Longrightarrow> truthy_value key \<Longrightarrow>
   env_fetch env (ocr_request key base64) = Inr res \<Longrightarrow>
     sendToOCR_try env base64 =
       ([ReadConfig, Console Log log_sending None, Fetch (ocr_request key base64)]
          @ fst (interpret_response (env_type_error env) res),
        snd (interpret_response (env_type_error env) res))"
  by (simp add: sendToOCR_try_def comp_defs split: prod.splits)

lemma sendToOCR_try_no_loading: "SetIsLoading v \<notin> set (fst (sendToOCR_try env base64))"
proof (cases "truthy (env_apiKey env)")
  case False
  then show ?thesis
    by (simp add: sendToOCR_try_unconfigured)
next
  case True
  then obtain key where key: "env_apiKey env = Some key" "truthy_value key"
    by (auto simp: truthy_def split: option.splits)
  show ?thesis
  proof (cases "env_fetch env (ocr_request key base64)")
    case (Inl e)
    with key show ?thesis
      by (simp add: sendToOCR_try_rejected)
  next
    case (Inr res)
    with key interpret_response_cases [of "env_type_error env" res] show ?thesis
      by (auto simp: sendToOCR_try_answered)
  qed
qed

subsection \<open>C1: the loading bracket of \<open>sendToOCR\<close>\<close>

text \<open>
  C1. Every run of \<open>sendToOCR\<close> sets \<open>isLoading\<close> to true as its first effect, hence
  before the request (which, when issued, is among the effects in between), and sets it
  to false as its last effect, whatever happened in between: success, a handled HTTP
  error, or an exception thrown and caught. Nothing in between touches \<open>isLoading\<close>, the
  promise of \<open>sendToOCR\<close> is never rejected, and \<open>isLoading\<close> is false in the state after
  the run. A run is taken to its end here: every awaited call settles.
\<close>

theorem sendToOCR_loading_bracket:
  "\<exists>mid. fst (sendToOCR env base64) = SetIsLoading True # mid @ [SetIsLoading False] \<and>
     SetIsLoading True \<notin> set mid \<and> SetIsLoading False \<notin> set mid \<and>
     requests (fst (sendToOCR env base64)) = requests mid \<and>
     snd (sendToOCR env base64) = Inr () \<and>
     isLoading (exec (fst (sendToOCR env base64)) s) = False"
proof -
  define mid where "mid = fst (sendToOCR_try env base64) @
       (case snd (sendToOCR_try env base64) of Inl e \<Rightarrow> fst (sendToOCR_catch e) | Inr u \<Rightarrow> [])"
  have tr: "fst (sendToOCR env base64) = SetIsLoading True # mid @ [SetIsLoading False]"
    by (simp add: sendToOCR_trace mid_def)
  have free: "SetIsLoading v \<notin> set mid" for v
    by (auto simp: mid_def sendToOCR_try_no_loading sendToOCR_catch_eq split: sum.splits)
  have reqs: "requests (xs @ [SetIsLoading False]) = requests xs" for xs
    by (induction xs rule: requests.induct) simp_all
  have "isLoading (exec (fst (sendToOCR env base64)) s) = False"
    by (simp add: tr exec_Cons exec_append exec_Nil)
  moreover have "requests (fst (sendToOCR env base64)) = requests mid"
    by (simp add: tr reqs)
  ultimately show ?thesis
    using tr free sendToOCR_fulfils by blast
qed

subsection \<open>C2: the gate of \<open>pickImage\<close>\<close>

text \<open>
  C2. When \<open>apiConfigured\<close> is false, a run of \<open>pickImage\<close> consists of the configuration
  alert and nothing else: no permission request, no picker, no network request, whatever
  the collaborators would have answered.
\<close>

theorem pickImage_unconfigured:
  "\<not> apiConfigured s \<Longrightarrow>
     fst (pickImage env s) = [Alert msg_config_title msg_config_body] \<and>
     RequestPermission \<notin> set (fst (pickImage env s)) \<and>
     requests (fst (pickImage env s)) = [] \<and>
     exec (fst (pickImage env s)) s = s"
  by (simp add: pickImage_def pickImage_try_def comp_defs exec_def)

theorem pickImage_unconfigured_witness:
  "\<not> apiConfigured initial_screen \<and>
   fst (pickImage hello_env initial_screen) = [Alert msg_config_title msg_config_body] \<and>
   RequestPermission \<notin> set (fst (pickImage hello_env initial_screen)) \<and>
   requests (fst (pickImage hello_env initial_screen)) = [] \<and>
   exec (fst (pickImage hello_env initial_screen)) initial_screen = initial_screen"
proof -
  have h: "\<not> apiConfigured initial_screen"
    by (simp add: initial_screen_def)
  show ?thesis
    using h pickImage_unconfigured [OF h, of hello_env] by (simp add: exec_def)
qed

subsection \<open>C6: a cancelled picker\<close>

text \<open>
  C6. With the credential configured and the permission granted, a cancelled picker ends
  the run after the two calls: no alert, no state setter (so \<open>ocrText\<close> keeps its value
  and \<open>isLoading\<close> is never set), and the component state is the one before the run.
\<close>

theorem pickImage_cancelled:
  "apiConfigured s \<Longrightarrow> env_permission env = Inr True \<Longrightarrow> env_picker env = Inr Canceled \<Longrightarrow>
     fst (pickImage env s) = [RequestPermission, picker_call] \<and>
     alerts (fst (pickImage env s)) = [] \<and>
     SetIsLoading True \<notin> set (fst (pickImage env s)) \<and>
     result_texts (fst (pickImage env s)) = [] \<and>
     exec (fst (pickImage env s)) s = s"
  by (simp add: pickImage_def pickImage_try_def comp_defs exec_def picker_call_def)

theorem pickImage_cancelled_witness:
  "apiConfigured configured_screen \<and>
   env_permission (hello_env\<lparr>env_picker := Inr Canceled\<rparr>) = Inr True \<and>
   env_picker (hello_env\<lparr>env_picker := Inr Canceled\<rparr>) = Inr Canceled \<and>
   fst (pickImage (hello_env\<lparr>env_picker := Inr Canceled\<rparr>) configured_screen)
     = [RequestPermission, picker_call] \<and>
   alerts (fst (pickImage (hello_env\<lparr>env_picker := Inr Canceled\<rparr>) configured_screen)) = [] \<and>
   ocrText (exec (fst (pickImage (hello_env\<lparr>env_picker := Inr Canceled\<rparr>) configured_screen))
     configured_screen) = ocrText configured_screen \<and>
   isLoading (exec (fst (pickImage (hello_env\<lparr>env_picker := Inr Canceled\<rparr>) configured_screen))
     configured_screen) = False"
proof -
  have a: "apiConfigured configured_screen"
    by (simp add: configured_screen_def useEffect_mount_def truthy_def exec_def)
  have l: "isLoading configured_screen = False"
    by (simp add: configured_screen_def useEffect_mount_def truthy_def exec_def initial_screen_def)
  have p: "env_permission (hello_env\<lparr>env_picker := Inr Canceled\<rparr>) = Inr True"
    by (simp add: hello_env_def)
  have c: "env_picker (hello_env\<lparr>env_picker := Inr Canceled\<rparr>) = Inr Canceled"
    by simp
  show ?thesis
    using a l p c pickImage_cancelled [OF a p c] by (simp add: exec_def picker_call_def)
qed

subsection \<open>C10: the preview is replaced before the data check\<close>

text \<open>
  C10. With the credential configured and the permission granted, a picker result that is
  not cancelled and holds an asset sets \<open>imageUri\<close> to that asset's URI right after the
  picker call, before anything that depends on the encoded data. The preview shows the
  new image after the run. When the encoded data is missing or empty the run goes on with
  the alert alone, and \<open>ocrText\<close> keeps its value.
\<close>

theorem pickImage_sets_image_first:
  "apiConfigured s \<Longrightarrow> env_permission env = Inr True \<Longrightarrow>
   env_picker env = Inr (Selected (a # rest)) \<Longrightarrow>
     take 3 (fst (pickImage env s)) = [RequestPermission, picker_call, SetImageUri (asset_uri a)] \<and>
     imageUri (exec (fst (pickImage env s)) s) = Some (asset_uri a) \<and>
     (asset_base64 a = None \<or> asset_base64 a = Some [] \<longrightarrow>
        fst (pickImage env s) =
          [RequestPermission, picker_call, SetImageUri (asset_uri a),
           Alert msg_error_title msg_no_image_data] \<and>
        ocrText (exec (fst (pickImage env s)) s) = ocrText s)"
proof -
  assume a: "apiConfigured s" and p: "env_permission env = Inr True"
    and r: "env_picker env = Inr (Selected (a # rest))"
  have no_uri: "imageUri (exec es t) = imageUri t" if "\<forall>u. SetImageUri u \<notin> set es" for es t
    using that
  proof (induction es arbitrary: t)
    case Nil
    then show ?case by (simp add: exec_Nil)
  next
    case (Cons e es)
    then show ?case by (cases e) (auto simp: exec_Cons)
  qed
  have try_uri: "SetImageUri u \<notin> set (fst (sendToOCR_try env b))" for u b
  proof (cases "truthy (env_apiKey env)")
    case False
    then show ?thesis
      by (simp add: sendToOCR_try_unconfigured)
  next
    case True
    then obtain key where key: "env_apiKey env = Some key" "truthy_value key"
      by (auto simp: truthy_def split: option.splits)
    show ?thesis
    proof (cases "env_fetch env (ocr_request key b)")
      case (Inl e)
      with key show ?thesis
        by (simp add: sendToOCR_try_rejected)
    next
      case (Inr res)
      with key interpret_response_cases [of "env_type_error env" res] show ?thesis
        by (auto simp: sendToOCR_try_answered)
    qed
  qed
  have send_uri: "\<forall>u. SetImageUri u \<notin> set (fst (sendToOCR env b))" for b
    by (auto simp: sendToOCR_trace sendToOCR_catch_eq try_uri split: sum.splits)
  show ?thesis
  proof (cases "asset_base64 a = None \<or> asset_base64 a = Some []")
    case True
    then show ?thesis
      using a p r
      by (auto simp: pickImage_def pickImage_try_def comp_defs exec_def picker_call_def)
  next
    case False
    then obtain b where b: "asset_base64 a = Some b" "b \<noteq> []"
      by auto
    have tr: "fst (pickImage env s) =
        [RequestPermission, picker_call, SetImageUri (asset_uri a)] @ fst (sendToOCR env b)"
      using a p r b by (simp add: pickImage_def pickImage_try_def comp_defs)
    have "imageUri (exec (fst (pickImage env s)) s) = Some (asset_uri a)"
      unfolding tr exec_append
      by (simp add: no_uri [OF send_uri] exec_Cons exec_Nil picker_call_def)
    moreover have "take 3 (fst (pickImage env s)) =
        [RequestPermission, picker_call, SetImageUri (asset_uri a)]"
      by (simp add: tr)
    ultimately show ?thesis
      using b by simp
  qed
qed

theorem pickImage_sets_image_first_witness:
  "apiConfigured configured_screen \<and>
   env_permission (hello_env\<lparr>env_picker := Inr (Selected [receipt\<lparr>asset_base64 := None\<rparr>])\<rparr>)
     = Inr True \<and>
   fst (pickImage (hello_env\<lparr>env_picker := Inr (Selected [receipt\<lparr>asset_base64 := None\<rparr>])\<rparr>)
       configured_screen)
     = [RequestPermission, picker_call, SetImageUri ''file:///receipt.jpg'',
        Alert msg_error_title msg_no_image_data] \<and>
   imageUri (exec (fst (pickImage
       (hello_env\<lparr>env_picker := Inr (Selected [receipt\<lparr>asset_base64 := None\<rparr>])\<rparr>)
       configured_screen)) configured_screen) = Some ''file:///receipt.jpg'' \<and>
   ocrText (exec (fst (pickImage
       (hello_env\<lparr>env_picker := Inr (Selected [receipt\<lparr>asset_base64 := None\<rparr>])\<rparr>)
       configured_screen)) configured_screen) = JStr []"
proof -
  let ?env = "hello_env\<lparr>env_picker := Inr (Selected [receipt\<lparr>asset_base64 := None\<rparr>])\<rparr>"
  have a: "apiConfigured configured_screen"
    by (simp add: configured_screen_def useEffect_mount_def truthy_def exec_def)
  have t: "ocrText configured_screen = JStr []"
    by (simp add: configured_screen_def useEffect_mount_def truthy_def exec_def initial_screen_def)
  have p: "env_permission ?env = Inr True"
    by (simp add: hello_env_def)
  have r: "env_picker ?env = Inr (Selected (receipt\<lparr>asset_base64 := None\<rparr> # []))"
    by simp
  show ?thesis
    using a t p pickImage_sets_image_first [OF a p r]
    by (simp add: receipt_def exec_def picker_call_def)
qed

subsection \<open>Reading the response\<close>

lemma response_text_null: "response_text te JNull = Inl (Error (te ''responses''))"
  by (simp add: response_text_def member_def)

lemma response_text_defined: "data \<noteq> JNull \<Longrightarrow> \<exists>text. response_text te data = Inr text"
  by (cases data) (simp_all add: response_text_def member_def)

lemma response_text_contract:
  "map_of kvs ''responses'' = Some (JArr (JObj r # rest)) \<Longrightarrow>
   map_of r ''fullTextAnnotation'' = Some (JObj f) \<Longrightarrow>
     response_text te (JObj kvs) = Inr (map_of f ''text'')"
  by (simp add: response_text_def member_def opt_index0_def opt_member_def)

lemma error_data_message_null: "error_data_message te JNull = Inl (Error (te ''error''))"
  by (simp add: error_data_message_def member_def)

lemma error_data_message_defined:
  "errorData \<noteq> JNull \<Longrightarrow> \<exists>message. error_data_message te errorData = Inr message"
  by (cases errorData) (simp_all add: error_data_message_def member_def)

lemma error_data_message_contract:
  "map_of kvs ''error'' = Some (JObj er) \<Longrightarrow>
     error_data_message te (JObj kvs) = Inr (map_of er ''message'')"
  by (simp add: error_data_message_def member_def opt_member_def)

lemma interpret_response_success:
  "res_ok res \<Longrightarrow> res_json res = Inr data \<Longrightarrow> response_text te data = Inr text \<Longrightarrow>
     interpret_response te res =
       ([SetOcrText (or_else text (JStr msg_no_text))], Inr ())"
  by (auto simp: interpret_response_def comp_defs or_else_def split: option.splits)

lemma interpret_response_http_error:
  "\<not> res_ok res \<Longrightarrow>
   error_data_message te (case res_json res of Inl e \<Rightarrow> JObj [] | Inr d \<Rightarrow> d) = Inr message \<Longrightarrow>
     interpret_response te res = ([], Inl (api_error res message))"
  by (auto simp: interpret_response_def comp_defs split: sum.splits)

lemma interpret_response_http_error_throws:
  "\<not> res_ok res \<Longrightarrow>
   error_data_message te (case res_json res of Inl e \<Rightarrow> JObj [] | Inr d \<Rightarrow> d) = Inl e \<Longrightarrow>
     interpret_response te res = ([], Inl e)"
  by (auto simp: interpret_response_def comp_defs split: sum.splits)

lemma sendToOCR_answered:
  "env_apiKey env = Some key \<Longrightarrow> truthy_value key \<Longrightarrow>
   env_fetch env (ocr_request key base64) = Inr res \<Longrightarrow>
   interpret_response (env_type_error env) res = (es, r) \<Longrightarrow>
     fst (sendToOCR env base64) =
       [SetIsLoading True, ReadConfig, Console Log log_sending None,
        Fetch (ocr_request key base64)] @ es @
       (case r of Inl e \<Rightarrow> fst (sendToOCR_catch e) | Inr u \<Rightarrow> []) @ [SetIsLoading False]"
  by (simp add: sendToOCR_trace sendToOCR_try_answered)

lemma sendToOCR_failed:
  "snd (sendToOCR_try env base64) = Inl e \<Longrightarrow>
     result_texts (fst (sendToOCR env base64)) = [JStr (fail_prefix @ error_message e)] \<and>
     alerts (fst (sendToOCR env base64)) = [(msg_error_title, alert_prefix @ error_message e)]"
proof -
  assume thrown: "snd (sendToOCR_try env base64) = Inl e"
  have quiet: "result_texts (fst (sendToOCR_try env base64)) = [] \<and>
      alerts (fst (sendToOCR_try env base64)) = []"
  proof (cases "truthy (env_apiKey env)")
    case False
    then show ?thesis
      by (simp add: sendToOCR_try_unconfigured)
  next
    case True
    then obtain key where key: "env_apiKey env = Some key" "truthy_value key"
      by (auto simp: truthy_def split: option.splits)
    show ?thesis
    proof (cases "env_fetch env (ocr_request key base64)")
      case (Inl e')
      with key show ?thesis
        by (simp add: sendToOCR_try_rejected)
    next
      case (Inr res)
      with key thrown interpret_response_cases [of "env_type_error env" res] show ?thesis
        by (auto simp: sendToOCR_try_answered)
    qed
  qed
  have app_texts: "result_texts (xs @ ys) = result_texts xs @ result_texts ys" for xs ys
    by (induction xs rule: result_texts.induct) simp_all
  have app_alerts: "alerts (xs @ ys) = alerts xs @ alerts ys" for xs ys
    by (induction xs rule: alerts.induct) simp_all
  show ?thesis
    using thrown quiet
    by (simp add: sendToOCR_trace sendToOCR_catch_eq app_texts app_alerts)
qed

subsection \<open>C4: the result of a successful response\<close>

text \<open>
  What C4 says holds for every response with \<open>res.ok\<close> whose body parses to a JSON value
  other than \<open>null\<close>: the result text is set exactly once, to the value of
  \<open>data.responses?.[0]?.fullTextAnnotation?.text\<close> unchanged when that is truthy, and to
  the fixed placeholder when it is missing or falsy, with no alert. The two lemmas after
  it read the path off the body itself.
\<close>

lemma success_result_of_parsed_body:
  assumes "env_apiKey env = Some key" and "truthy_value key"
    and "env_fetch env (ocr_request key base64) = Inr res" and "res_ok res"
    and "res_json res = Inr data" and "data \<noteq> JNull"
  shows "\<exists>found. response_text (env_type_error env) data = Inr found \<and>
     (\<forall>t. found = Some t \<and> truthy_value t \<longrightarrow>
        result_texts (fst (sendToOCR env base64)) = [t] \<and>
        ocrText (exec (fst (sendToOCR env base64)) s) = t) \<and>
     (\<not> truthy found \<longrightarrow>
        result_texts (fst (sendToOCR env base64)) = [JStr msg_no_text] \<and>
        ocrText (exec (fst (sendToOCR env base64)) s) = JStr msg_no_text) \<and>
     alerts (fst (sendToOCR env base64)) = []"
proof -
  obtain tx where tx: "response_text (env_type_error env) data = Inr tx"
    using response_text_defined [OF assms(6)] by blast
  have tr: "fst (sendToOCR env base64) =
      [SetIsLoading True, ReadConfig, Console Log log_sending None,
       Fetch (ocr_request key base64), SetOcrText (or_else tx (JStr msg_no_text)),
       SetIsLoading False]"
    using sendToOCR_answered [OF assms(1-3) interpret_response_success [OF assms(4,5) tx]]
    by simp
  show ?thesis
    using tx
    by (auto simp: tr exec_def or_else_def truthy_def split: option.splits)
qed

lemma success_result_of_annotated_body:
  assumes "env_apiKey env = Some key" and "truthy_value key"
    and "env_fetch env (ocr_request key base64) = Inr res" and "res_ok res"
    and "res_json res = Inr (JObj kvs)"
    and "map_of kvs ''responses'' = Some (JArr (JObj r # rest))"
    and "map_of r ''fullTextAnnotation'' = Some (JObj f)"
  shows "(\<forall>t. map_of f ''text'' = Some t \<and> truthy_value t \<longrightarrow>
        result_texts (fst (sendToOCR env base64)) = [t] \<and>
        ocrText (exec (fst (sendToOCR env base64)) s) = t) \<and>
     (\<not> truthy (map_of f ''text'') \<longrightarrow>
        result_texts (fst (sendToOCR env base64)) = [JStr msg_no_text] \<and>
        ocrText (exec (fst (sendToOCR env base64)) s) = JStr msg_no_text) \<and>
     alerts (fst (sendToOCR env base64)) = []"
proof -
  have "JObj kvs \<noteq> JNull"
    by simp
  from success_result_of_parsed_body [OF assms(1-5) this, of s]
  show ?thesis
    by (simp add: response_text_contract [OF assms(6,7)])
qed

lemma success_result_without_annotation:
  assumes "env_apiKey env = Some key" and "truthy_value key"
    and "env_fetch env (ocr_request key base64) = Inr res" and "res_ok res"
    and "res_json res = Inr (JObj kvs)"
    and "map_of kvs ''responses'' = Some (JArr (JObj r # rest))"
    and "map_of r ''fullTextAnnotation'' = None"
  shows "result_texts (fst (sendToOCR env base64)) = [JStr msg_no_text] \<and>
     ocrText (exec (fst (sendToOCR env base64)) s) = JStr msg_no_text \<and>
     alerts (fst (sendToOCR env base64)) = []"
proof -
  have "JObj kvs \<noteq> JNull"
    by simp
  moreover have "response_text (env_type_error env) (JObj kvs) = Inr None"
    using assms(6,7)
    by (simp add: response_text_def member_def opt_index0_def opt_member_def)
  ultimately show ?thesis
    using success_result_of_parsed_body [OF assms(1-5), of s]
    by (simp add: truthy_def)
qed

lemma hello_example:
  "result_texts (fst (sendToOCR hello_env ''aGVsbG8='')) = [JStr ''Hello''] \<and>
   ocrText (exec (fst (sendToOCR hello_env ''aGVsbG8='')) configured_screen) = JStr ''Hello'' \<and>
   alerts (fst (sendToOCR hello_env ''aGVsbG8='')) = []"
proof -
  have k: "env_apiKey hello_env = Some (JStr ''KEY'')"
    by (simp add: hello_env_def)
  have t: "truthy_value (JStr ''KEY'')"
    by simp
  have f: "env_fetch hello_env (ocr_request (JStr ''KEY'') ''aGVsbG8='') = Inr hello_response"
    by (simp add: hello_env_def)
  have ok: "res_ok hello_response"
    by (simp add: hello_response_def)
  have j: "res_json hello_response =
      Inr (JObj [(''responses'',
        JArr [JObj [(''fullTextAnnotation'', JObj [(''text'', JStr ''Hello'')])]])])"
    by (simp add: hello_response_def hello_body_def)
  have r: "map_of [(''responses'',
        JArr [JObj [(''fullTextAnnotation'', JObj [(''text'', JStr ''Hello'')])]])] ''responses''
      = Some (JArr (JObj [(''fullTextAnnotation'', JObj [(''text'', JStr ''Hello'')])] # []))"
    by simp
  have a: "map_of [(''fullTextAnnotation'', JObj [(''text'', JStr ''Hello'')])]
      ''fullTextAnnotation'' = Some (JObj [(''text'', JStr ''Hello'')])"
    by simp
  from success_result_of_annotated_body [OF k t f ok j r a, of configured_screen]
  show ?thesis
    by simp
qed

text \<open>
  C4 at the failing input: a response with \<open>res.ok\<close>, status 200, whose body is the JSON
  text \<open>null\<close>. The body parses, and the text is missing from it, so C4 asks for the
  placeholder and no error. In the code \<open>data.responses\<close> (line 120, no \<open>?.\<close> after
  \<open>data\<close>) throws a \<open>TypeError\<close>: the result text is the failure prefix with the engine's
  message, not the placeholder, and an alert is raised.
\<close>

theorem null_success_body_shows_error:
  "res_ok null_success_response \<and>
   res_json null_success_response = Inr JNull \<and>
   result_texts (fst (sendToOCR (hello_env\<lparr>env_fetch := \<lambda>req. Inr null_success_response\<rparr>)
      ''aGVsbG8=''))
     = [JStr (fail_prefix @ ''Cannot read property responses of null'')] \<and>
   result_texts (fst (sendToOCR (hello_env\<lparr>env_fetch := \<lambda>req. Inr null_success_response\<rparr>)
      ''aGVsbG8=''))
     \<noteq> [JStr msg_no_text] \<and>
   alerts (fst (sendToOCR (hello_env\<lparr>env_fetch := \<lambda>req. Inr null_success_response\<rparr>)
      ''aGVsbG8=''))
     = [(msg_error_title, alert_prefix @ ''Cannot read property responses of null'')]"
proof -
  let ?env = "hello_env\<lparr>env_fetch := \<lambda>req. Inr null_success_response\<rparr>"
  have k: "env_apiKey ?env = Some (JStr ''KEY'')"
    by (simp add: hello_env_def)
  have t: "truthy_value (JStr ''KEY'')"
    by simp
  have f: "env_fetch ?env (ocr_request (JStr ''KEY'') ''aGVsbG8='') = Inr null_success_response"
    by simp
  have ok: "res_ok null_success_response \<and> res_json null_success_response = Inr JNull"
    by (simp add: null_success_response_def)
  have "interpret_response (env_type_error ?env) null_success_response =
      ([], Inl (Error ''Cannot read property responses of null''))"
    by (simp add: interpret_response_def null_success_response_def response_text_null
        hello_env_def comp_defs)
  then have "snd (sendToOCR_try ?env ''aGVsbG8='')
      = Inl (Error ''Cannot read property responses of null'')"
    by (simp add: sendToOCR_try_answered [OF k t f])
  from sendToOCR_failed [OF this]
  have shown: "result_texts (fst (sendToOCR ?env ''aGVsbG8=''))
        = [JStr (fail_prefix @ ''Cannot read property responses of null'')]"
    and alerted: "alerts (fst (sendToOCR ?env ''aGVsbG8=''))
        = [(msg_error_title, alert_prefix @ ''Cannot read property responses of null'')]"
    by (simp_all add: error_message_def)
  have differ: "fail_prefix @ ''Cannot read property responses of null'' \<noteq> msg_no_text"
    by (simp add: fail_prefix_def msg_no_text_def)
  from ok shown alerted differ show ?thesis
    by simp
qed

subsection \<open>C7: the request\<close>

lemma requests_append: "requests (xs @ ys) = requests xs @ requests ys"
  by (induction xs rule: requests.induct) simp_all

lemma interpret_response_requests: "requests (fst (interpret_response te res)) = []"
  using interpret_response_cases [of te res] by auto

lemma sendToOCR_requests:
  "requests (fst (sendToOCR env base64)) =
     (case env_apiKey env of
        None \<Rightarrow> []
      | Some key \<Rightarrow> if truthy_value key then [ocr_request key base64] else [])"
proof (cases "truthy (env_apiKey env)")
  case False
  then show ?thesis
    by (auto simp: sendToOCR_trace sendToOCR_try_unconfigured sendToOCR_catch_eq truthy_def
        split: option.splits)
next
  case True
  then obtain key where key: "env_apiKey env = Some key" "truthy_value key"
    by (auto simp: truthy_def split: option.splits)
  show ?thesis
  proof (cases "env_fetch env (ocr_request key base64)")
    case (Inl e)
    with key show ?thesis
      by (simp add: sendToOCR_trace sendToOCR_try_rejected sendToOCR_catch_eq)
  next
    case (Inr res)
    with key show ?thesis
      by (simp add: sendToOCR_trace sendToOCR_try_answered sendToOCR_catch_eq requests_append
          interpret_response_requests split: sum.splits)
  qed
qed

text \<open>
  C7. Every network request of a run of \<open>pickImage\<close> (the only caller of \<open>sendToOCR\<close>) is
  the one request of that run. Its URL is the fixed endpoint followed by \<open>?key=\<close> and
  the credential read by \<open>sendToOCR\<close>, as a template literal renders it (a string
  credential as it is); its method is \<open>POST\<close>; its only header is
  \<open>Content-Type: application/json\<close>; and its body is \<open>JSON.stringify\<close> of
  \<open>{requests: [{image: {content: b}, features: [{type: "TEXT_DETECTION"}]}]}\<close>, where \<open>b\<close>
  is the base64 data of the first asset the picker returned.
\<close>

theorem pickImage_request_shape:
  "req \<in> set (requests (fst (pickImage env s))) \<Longrightarrow>
     \<exists>key a rest b.
       env_apiKey env = Some key \<and> truthy_value key \<and>
       env_picker env = Inr (Selected (a # rest)) \<and> asset_base64 a = Some b \<and>
       requests (fst (pickImage env s)) = [req] \<and>
       req_url req = API_CONFIG_endpoint @ ''?key='' @ js_String key \<and>
       req_method req = ''POST'' \<and>
       req_headers req = [(''Content-Type'', ''application/json'')] \<and>
       req_body req = JSON_stringify (JObj [(''requests'',
         JArr [JObj [(''image'', JObj [(''content'', JStr b)]),
                     (''features'', JArr [JObj [(''type'', JStr ''TEXT_DETECTION'')]])]])])"
  unfolding pickImage_def pickImage_try_def pickImage_catch_def
  by (auto simp: comp_defs sendToOCR_requests ocr_request_def ocr_request_body_def
      picker_call_def
      split: if_splits sum.splits option.splits picker_result.splits list.splits prod.splits)

theorem pickImage_request_shape_witness:
  "requests (fst (pickImage hello_env configured_screen))
     = [\<lparr>req_url = ''https://vision.googleapis.com/v1/images:annotate?key=KEY'',
         req_method = ''POST'',
         req_headers = [(''Content-Type'', ''application/json'')],
         req_body = JSON_stringify (JObj [(''requests'',
           JArr [JObj [(''image'', JObj [(''content'', JStr ''aGVsbG8='')]),
                       (''features'', JArr [JObj [(''type'', JStr ''TEXT_DETECTION'')]])]])])\<rparr>]"
proof -
  let ?req = "ocr_request (JStr ''KEY'') ''aGVsbG8=''"
  have a: "apiConfigured configured_screen"
    by (simp add: configured_screen_def useEffect_mount_def truthy_def exec_def)
  have "requests (fst (pickImage hello_env configured_screen)) = [?req]"
    using a
    by (simp add: pickImage_def pickImage_try_def comp_defs hello_env_def receipt_def
        picker_call_def sendToOCR_requests split: prod.splits)
  then have "?req \<in> set (requests (fst (pickImage hello_env configured_screen)))"
    by simp
  from pickImage_request_shape [OF this] show ?thesis
    by (auto simp: hello_env_def receipt_def API_CONFIG_endpoint_def)
qed

subsection \<open>C3: how failures are shown\<close>

lemma pickImage_denied:
  "apiConfigured s \<Longrightarrow> env_permission env = Inr False \<Longrightarrow>
     fst (pickImage env s) = [RequestPermission, Alert msg_permission_title msg_permission_body]"
  by (simp add: pickImage_def pickImage_try_def comp_defs)

lemma pickImage_no_data:
  "apiConfigured s \<Longrightarrow> env_permission env = Inr True \<Longrightarrow>
   env_picker env = Inr (Selected (a # rest)) \<Longrightarrow>
   asset_base64 a = None \<or> asset_base64 a = Some [] \<Longrightarrow>
     fst (pickImage env s) =
       [RequestPermission, picker_call, SetImageUri (asset_uri a),
        Alert msg_error_title msg_no_image_data]"
  by (auto simp: pickImage_def pickImage_try_def comp_defs)

lemma pickImage_rejected:
  "apiConfigured s \<Longrightarrow>
   env_permission env = Inl e \<or> (env_permission env = Inr True \<and> env_picker env = Inl e) \<Longrightarrow>
     alerts (fst (pickImage env s)) = [(msg_error_title, msg_pick_error)] \<and>
     result_texts (fst (pickImage env s)) = []"
  by (auto simp: pickImage_def pickImage_try_def pickImage_catch_def comp_defs picker_call_def)

text \<open>
  C3, as stated, fails where the permission is denied: the run raises the alert and sets
  no result text.
\<close>

theorem permission_denied_sets_no_result_text:
  "alerts (fst (pickImage (hello_env\<lparr>env_permission := Inr False\<rparr>) configured_screen))
     = [(msg_permission_title, msg_permission_body)] \<and>
   result_texts (fst (pickImage (hello_env\<lparr>env_permission := Inr False\<rparr>) configured_screen)) = [] \<and>
   ocrText (exec (fst (pickImage (hello_env\<lparr>env_permission := Inr False\<rparr>) configured_screen))
     configured_screen) = ocrText configured_screen"
proof -
  have a: "apiConfigured configured_screen"
    by (simp add: configured_screen_def useEffect_mount_def truthy_def exec_def)
  have p: "env_permission (hello_env\<lparr>env_permission := Inr False\<rparr>) = Inr False"
    by simp
  show ?thesis
    by (simp add: pickImage_denied [OF a p] exec_def)
qed

text \<open>
  C3, amended. Whenever the \<open>try\<close> block of \<open>sendToOCR\<close> throws an error \<open>e\<close> (the
  credential missing when read, the request rejected, a status that is not a success, a
  body that does not parse, a property read from \<open>null\<close>), the run sets the result text
  to the failure prefix followed by the message of \<open>e\<close>, and raises one alert whose
  message is the alert prefix followed by the same message of \<open>e\<close>. A denied permission,
  a picker result without encoded data, and a rejected permission or picker call raise
  one alert each and set no result text.
\<close>

theorem failures_shown:
  "(snd (sendToOCR_try env base64) = Inl e \<longrightarrow>
      result_texts (fst (sendToOCR env base64)) = [JStr (fail_prefix @ error_message e)] \<and>
      alerts (fst (sendToOCR env base64)) = [(msg_error_title, alert_prefix @ error_message e)]) \<and>
   (apiConfigured s \<and> env_permission env = Inr False \<longrightarrow>
      alerts (fst (pickImage env s)) = [(msg_permission_title, msg_permission_body)] \<and>
      result_texts (fst (pickImage env s)) = []) \<and>
   (apiConfigured s \<and> env_permission env = Inr True \<and>
    env_picker env = Inr (Selected (a # rest)) \<and>
    (asset_base64 a = None \<or> asset_base64 a = Some []) \<longrightarrow>
      alerts (fst (pickImage env s)) = [(msg_error_title, msg_no_image_data)] \<and>
      result_texts (fst (pickImage env s)) = []) \<and>
   (apiConfigured s \<and>
    (env_permission env = Inl e' \<or> (env_permission env = Inr True \<and> env_picker env = Inl e')) \<longrightarrow>
      alerts (fst (pickImage env s)) = [(msg_error_title, msg_pick_error)] \<and>
      result_texts (fst (pickImage env s)) = [])"
proof -
  have "apiConfigured s \<and> env_permission env = Inr False \<longrightarrow>
      alerts (fst (pickImage env s)) = [(msg_permission_title, msg_permission_body)] \<and>
      result_texts (fst (pickImage env s)) = []"
    by (simp add: pickImage_denied)
  moreover have "apiConfigured s \<and> env_permission env = Inr True \<and>
    env_picker env = Inr (Selected (a # rest)) \<and>
    (asset_base64 a = None \<or> asset_base64 a = Some []) \<longrightarrow>
      alerts (fst (pickImage env s)) = [(msg_error_title, msg_no_image_data)] \<and>
      result_texts (fst (pickImage env s)) = []"
    by (auto simp: pickImage_no_data picker_call_def)
  ultimately show ?thesis
    using sendToOCR_failed [of env base64 e] pickImage_rejected [of s env e']
    by blast
qed

theorem failures_shown_witness:
  "snd (sendToOCR_try (hello_env\<lparr>env_permission := Inr False, env_apiKey := None\<rparr>) ''aGVsbG8='')
     = Inl (Error msg_no_key) \<and>
   result_texts (fst (sendToOCR (hello_env\<lparr>env_permission := Inr False, env_apiKey := None\<rparr>)
     ''aGVsbG8='')) = [JStr (fail_prefix @ msg_no_key)] \<and>
   alerts (fst (sendToOCR (hello_env\<lparr>env_permission := Inr False, env_apiKey := None\<rparr>)
     ''aGVsbG8='')) = [(msg_error_title, alert_prefix @ msg_no_key)] \<and>
   alerts (fst (pickImage (hello_env\<lparr>env_permission := Inr False, env_apiKey := None\<rparr>)
     configured_screen)) = [(msg_permission_title, msg_permission_body)] \<and>
   result_texts (fst (pickImage (hello_env\<lparr>env_permission := Inr False, env_apiKey := None\<rparr>)
     configured_screen)) = [] \<and>
   alerts (fst (pickImage (hello_env\<lparr>env_picker := Inr (Selected [receipt\<lparr>asset_base64 := None\<rparr>])\<rparr>)
     configured_screen)) = [(msg_error_title, msg_no_image_data)] \<and>
   result_texts (fst (pickImage
     (hello_env\<lparr>env_picker := Inr (Selected [receipt\<lparr>asset_base64 := None\<rparr>])\<rparr>)
     configured_screen)) = [] \<and>
   alerts (fst (pickImage (hello_env\<lparr>env_permission := Inl NotAnError\<rparr>) configured_screen))
     = [(msg_error_title, msg_pick_error)] \<and>
   result_texts (fst (pickImage (hello_env\<lparr>env_permission := Inl NotAnError\<rparr>)
     configured_screen)) = []"
proof -
  let ?denied = "hello_env\<lparr>env_permission := Inr False, env_apiKey := None\<rparr>"
  let ?no_data = "hello_env\<lparr>env_picker := Inr (Selected [receipt\<lparr>asset_base64 := None\<rparr>])\<rparr>"
  let ?rejected = "hello_env\<lparr>env_permission := Inl NotAnError\<rparr>"
  have a: "apiConfigured configured_screen"
    by (simp add: configured_screen_def useEffect_mount_def truthy_def exec_def)
  have t: "snd (sendToOCR_try ?denied ''aGVsbG8='') = Inl (Error msg_no_key)"
    by (simp add: sendToOCR_try_unconfigured truthy_def)
  have d: "env_permission ?denied = Inr False"
    by simp
  have n: "env_permission ?no_data = Inr True \<and>
      env_picker ?no_data = Inr (Selected (receipt\<lparr>asset_base64 := None\<rparr> # [])) \<and>
      (asset_base64 (receipt\<lparr>asset_base64 := None\<rparr>) = None \<or>
       asset_base64 (receipt\<lparr>asset_base64 := None\<rparr>) = Some [])"
    by (simp add: hello_env_def)
  have r: "env_permission ?rejected = Inl NotAnError"
    by simp
  show ?thesis
    using a t d n r
      failures_shown [of ?denied "''aGVsbG8=''" "Error msg_no_key" configured_screen]
      failures_shown [of ?no_data _ _ configured_screen "receipt\<lparr>asset_base64 := None\<rparr>" "[]"]
      failures_shown [of ?rejected _ _ configured_screen _ _ NotAnError]
    by (simp add: error_message_def)
qed

subsection \<open>C5: the message of an HTTP error\<close>

lemma sendToOCR_http_error:
  assumes "env_apiKey env = Some key" and "truthy_value key"
    and "env_fetch env (ocr_request key base64) = Inr res" and "\<not> res_ok res"
    and "errorData = (case res_json res of Inl e \<Rightarrow> JObj [] | Inr d \<Rightarrow> d)"
    and "errorData \<noteq> JNull"
  shows "\<exists>message. error_data_message (env_type_error env) errorData = Inr message \<and>
     result_texts (fst (sendToOCR env base64)) =
       [JStr (fail_prefix @ api_error_prefix @ string_of_nat (res_status res) @ ''): '' @
          js_String (or_else message (JStr (res_statusText res))))] \<and>
     alerts (fst (sendToOCR env base64)) =
       [(msg_error_title, alert_prefix @ api_error_prefix @ string_of_nat (res_status res) @
          ''): '' @ js_String (or_else message (JStr (res_statusText res))))]"
proof -
  obtain message where m: "error_data_message (env_type_error env) errorData = Inr message"
    using error_data_message_defined [OF assms(6)] by blast
  have "interpret_response (env_type_error env) res = ([], Inl (api_error res message))"
    using interpret_response_http_error [OF assms(4)] m assms(5) by simp
  then have "snd (sendToOCR_try env base64) = Inl (api_error res message)"
    by (simp add: sendToOCR_try_answered [OF assms(1-3)])
  from sendToOCR_failed [OF this] m show ?thesis
    by (simp add: api_error_def error_message_def)
qed

lemma sublist_behind: "sublist m (a @ m)"
  unfolding sublist_def by (rule exI [of _ a], rule exI [of _ "[]"]) simp

lemma http_error_shows_server_message:
  assumes "env_apiKey env = Some key" and "truthy_value key"
    and "env_fetch env (ocr_request key base64) = Inr res" and "\<not> res_ok res"
    and "errorData = (case res_json res of Inl e \<Rightarrow> JObj [] | Inr d \<Rightarrow> d)"
    and "error_data_message (env_type_error env) errorData = Inr (Some (JStr m))" and "m \<noteq> []"
  shows "\<exists>shown alerted.
     result_texts (fst (sendToOCR env base64)) = [JStr shown] \<and> sublist m shown \<and>
     alerts (fst (sendToOCR env base64)) = [(msg_error_title, alerted)] \<and> sublist m alerted"
proof -
  have "errorData \<noteq> JNull"
    using assms(6) by (auto simp: error_data_message_null)
  from sendToOCR_http_error [OF assms(1-5) this] assms(6,7)
  have "result_texts (fst (sendToOCR env base64)) =
      [JStr ((fail_prefix @ api_error_prefix @ string_of_nat (res_status res) @ ''): '') @ m)]"
    and "alerts (fst (sendToOCR env base64)) =
      [(msg_error_title,
        (alert_prefix @ api_error_prefix @ string_of_nat (res_status res) @ ''): '') @ m)]"
    by (simp_all add: or_else_def)
  then show ?thesis
    using sublist_behind by blast
qed

lemma http_error_falls_back_to_status_text:
  assumes "env_apiKey env = Some key" and "truthy_value key"
    and "env_fetch env (ocr_request key base64) = Inr res" and "\<not> res_ok res"
    and "errorData = (case res_json res of Inl e \<Rightarrow> JObj [] | Inr d \<Rightarrow> d)"
    and "error_data_message (env_type_error env) errorData = Inr message"
    and "\<not> truthy message"
  shows "\<exists>shown alerted.
     result_texts (fst (sendToOCR env base64)) = [JStr shown] \<and>
     sublist (res_statusText res) shown \<and>
     alerts (fst (sendToOCR env base64)) = [(msg_error_title, alerted)] \<and>
     sublist (res_statusText res) alerted"
proof -
  have "errorData \<noteq> JNull"
    using assms(6) by (auto simp: error_data_message_null)
  from sendToOCR_http_error [OF assms(1-5) this] assms(6,7)
  have "result_texts (fst (sendToOCR env base64)) =
      [JStr ((fail_prefix @ api_error_prefix @ string_of_nat (res_status res) @ ''): '')
         @ res_statusText res)]"
    and "alerts (fst (sendToOCR env base64)) =
      [(msg_error_title,
        (alert_prefix @ api_error_prefix @ string_of_nat (res_status res) @ ''): '')
          @ res_statusText res)]"
    by (auto simp: or_else_def truthy_def split: option.splits)
  then show ?thesis
    using sublist_behind by blast
qed

lemma bad_image_example:
  "result_texts (fst (sendToOCR (hello_env\<lparr>env_fetch := \<lambda>req. Inr bad_image_response\<rparr>)
      ''aGVsbG8=''))
     = [JStr (fail_prefix @ api_error_prefix @ ''400): Bad image'')] \<and>
   alerts (fst (sendToOCR (hello_env\<lparr>env_fetch := \<lambda>req. Inr bad_image_response\<rparr>) ''aGVsbG8=''))
     = [(msg_error_title, alert_prefix @ api_error_prefix @ ''400): Bad image'')]"
proof -
  let ?env = "hello_env\<lparr>env_fetch := \<lambda>req. Inr bad_image_response\<rparr>"
  have k: "env_apiKey ?env = Some (JStr ''KEY'')"
    by (simp add: hello_env_def)
  have f: "env_fetch ?env (ocr_request (JStr ''KEY'') ''aGVsbG8='') = Inr bad_image_response"
    by simp
  have t: "truthy_value (JStr ''KEY'')"
    by simp
  have n: "\<not> res_ok bad_image_response"
    by (simp add: bad_image_response_def)
  have d: "JObj [(''error'', JObj [(''message'', JStr ''Bad image'')])] =
      (case res_json bad_image_response of Inl e \<Rightarrow> JObj [] | Inr d \<Rightarrow> d)"
    by (simp add: bad_image_response_def)
  have m: "error_data_message (env_type_error ?env)
      (JObj [(''error'', JObj [(''message'', JStr ''Bad image'')])]) = Inr (Some (JStr ''Bad image''))"
    by (simp add: error_data_message_contract)
  have s: "res_status bad_image_response = 400"
    by (simp add: bad_image_response_def)
  have "string_of_nat 400 = ''400''"
    by simp
  with sendToOCR_http_error [OF k t f n d] m s show ?thesis
    by (simp add: or_else_def)
qed

lemma unparseable_body_example:
  "result_texts (fst (sendToOCR
      (hello_env\<lparr>env_fetch := \<lambda>req. Inr (null_body_response\<lparr>res_json := Inl e\<rparr>)\<rparr>) ''aGVsbG8=''))
     = [JStr (fail_prefix @ api_error_prefix @ ''500): Internal Server Error'')]"
proof -
  let ?res = "null_body_response\<lparr>res_json := Inl e\<rparr>"
  let ?env = "hello_env\<lparr>env_fetch := \<lambda>req. Inr ?res\<rparr>"
  have k: "env_apiKey ?env = Some (JStr ''KEY'')"
    by (simp add: hello_env_def)
  have f: "env_fetch ?env (ocr_request (JStr ''KEY'') ''aGVsbG8='') = Inr ?res"
    by simp
  have t: "truthy_value (JStr ''KEY'')"
    by simp
  have n: "\<not> res_ok ?res"
    by (simp add: null_body_response_def)
  have d: "JObj [] = (case res_json ?res of Inl e \<Rightarrow> JObj [] | Inr d \<Rightarrow> d)"
    by simp
  have m: "error_data_message (env_type_error ?env) (JObj []) = Inr None"
    by (simp add: error_data_message_def member_def opt_member_def)
  have s: "res_status ?res = 500 \<and> res_statusText ?res = ''Internal Server Error''"
    by (simp add: null_body_response_def)
  have "string_of_nat 500 = ''500''"
    by simp
  with sendToOCR_http_error [OF k t f n d] m s show ?thesis
    by (simp add: or_else_def)
qed

text \<open>
  C5 holds for every response that is not a success and whose body does not parse, or
  parses to anything but \<open>null\<close> (the three lemmas above). At the failing input the
  status is 500, the status text \<open>Internal Server Error\<close>, and the body \<open>null\<close>, which
  parses: \<open>errorData.error\<close> then throws a \<open>TypeError\<close>, and the texts shown carry the
  engine's message for it, with neither the status code nor the status text.
\<close>

theorem null_error_body_shows_type_error:
  "result_texts (fst (sendToOCR (hello_env\<lparr>env_fetch := \<lambda>req. Inr null_body_response\<rparr>)
      ''aGVsbG8=''))
     = [JStr (fail_prefix @ ''Cannot read property error of null'')] \<and>
   alerts (fst (sendToOCR (hello_env\<lparr>env_fetch := \<lambda>req. Inr null_body_response\<rparr>) ''aGVsbG8=''))
     = [(msg_error_title, alert_prefix @ ''Cannot read property error of null'')] \<and>
   \<not> sublist (res_statusText null_body_response)
       (fail_prefix @ ''Cannot read property error of null'')"
proof -
  have absent: "\<not> sublist (res_statusText null_body_response)
      (fail_prefix @ ''Cannot read property error of null'')"
    by code_simp
  let ?env = "hello_env\<lparr>env_fetch := \<lambda>req. Inr null_body_response\<rparr>"
  have k: "env_apiKey ?env = Some (JStr ''KEY'')"
    by (simp add: hello_env_def)
  have t: "truthy_value (JStr ''KEY'')"
    by simp
  have f: "env_fetch ?env (ocr_request (JStr ''KEY'') ''aGVsbG8='') = Inr null_body_response"
    by simp
  have "interpret_response (env_type_error ?env) null_body_response =
      ([], Inl (Error ''Cannot read property error of null''))"
    by (simp add: interpret_response_http_error_throws null_body_response_def
        error_data_message_null hello_env_def)
  then have "snd (sendToOCR_try ?env ''aGVsbG8='')
      = Inl (Error ''Cannot read property error of null'')"
    by (simp add: sendToOCR_try_answered [OF k t f])
  from sendToOCR_failed [OF this] absent show ?thesis
    by (simp add: error_message_def)
qed

subsection \<open>C8: where the credential is read\<close>

lemma config_reads_append: "config_reads (xs @ ys) = config_reads xs + config_reads ys"
  by (induction xs rule: config_reads.induct) simp_all

lemma sendToOCR_config_reads: "config_reads (fst (sendToOCR env base64)) = 1"
proof (cases "truthy (env_apiKey env)")
  case False
  then show ?thesis
    by (simp add: sendToOCR_trace sendToOCR_try_unconfigured sendToOCR_catch_eq)
next
  case True
  then obtain key where key: "env_apiKey env = Some key" "truthy_value key"
    by (auto simp: truthy_def split: option.splits)
  show ?thesis
  proof (cases "env_fetch env (ocr_request key base64)")
    case (Inl e)
    with key show ?thesis
      by (simp add: sendToOCR_trace sendToOCR_try_rejected sendToOCR_catch_eq)
  next
    case (Inr res)
    with key interpret_response_cases [of "env_type_error env" res] show ?thesis
      by (auto simp: sendToOCR_trace sendToOCR_try_answered sendToOCR_catch_eq
          config_reads_append split: sum.splits)
  qed
qed

lemma sendToOCR_sets_loading: "SetIsLoading True \<in> set (fst (sendToOCR env base64))"
  by (simp add: sendToOCR_trace)

text \<open>
  C8, as stated, fails on the first successful pick after the mount: the configuration
  has then been read twice, once by the mount effect and once by \<open>sendToOCR\<close>.
\<close>

theorem credential_read_again:
  "config_reads (useEffect_mount (Some (JStr ''KEY'')) @ fst (pickImage hello_env configured_screen))
     = 2"
proof -
  have a: "apiConfigured configured_screen"
    by (simp add: configured_screen_def useEffect_mount_def truthy_def exec_def)
  have "fst (pickImage hello_env configured_screen) =
      [RequestPermission, picker_call, SetImageUri ''file:///receipt.jpg'']
        @ fst (sendToOCR hello_env ''aGVsbG8='')"
    using a
    by (simp add: pickImage_def pickImage_try_def comp_defs hello_env_def receipt_def
        split: prod.splits)
  then show ?thesis
    by (simp add: config_reads_append sendToOCR_config_reads useEffect_mount_def truthy_def
        picker_call_def)
qed

text \<open>
  C8, amended. The mount effect reads the credential once and sets \<open>apiConfigured\<close> to
  whether it is truthy. Every run of \<open>sendToOCR\<close> reads it once more, and a run of
  \<open>pickImage\<close> reads it exactly when it reaches \<open>sendToOCR\<close>: the gate of \<open>pickImage\<close>
  consults the flag alone. \<open>sendToOCR\<close> relies on the value it has read itself: when
  that is missing it issues no request and reports the missing credential, whatever the
  flag says.
\<close>

theorem credential_read_points:
  "config_reads (useEffect_mount apiKey) = 1 \<and>
   apiConfigured (exec (useEffect_mount apiKey) initial_screen) = truthy apiKey \<and>
   config_reads (fst (sendToOCR env base64)) = 1 \<and>
   config_reads (fst (pickImage env s)) =
     (if SetIsLoading True \<in> set (fst (pickImage env s)) then 1 else 0) \<and>
   (\<not> apiConfigured s \<longrightarrow> config_reads (fst (pickImage env s)) = 0) \<and>
   (\<not> truthy (env_apiKey env) \<longrightarrow>
      requests (fst (sendToOCR env base64)) = [] \<and>
      result_texts (fst (sendToOCR env base64)) = [JStr (fail_prefix @ msg_no_key)])"
proof -
  have mount: "config_reads (useEffect_mount apiKey) = 1 \<and>
      apiConfigured (exec (useEffect_mount apiKey) initial_screen) = truthy apiKey"
    by (simp add: useEffect_mount_def exec_def initial_screen_def)
  have pick: "config_reads (fst (pickImage env s)) =
      (if SetIsLoading True \<in> set (fst (pickImage env s)) then 1 else 0)"
    unfolding pickImage_def pickImage_try_def pickImage_catch_def
    by (auto simp: comp_defs sendToOCR_config_reads sendToOCR_sets_loading picker_call_def
        split: sum.splits option.splits picker_result.splits list.splits prod.splits)
  have gate: "\<not> apiConfigured s \<longrightarrow> config_reads (fst (pickImage env s)) = 0"
    by (simp add: pickImage_def pickImage_try_def comp_defs)
  have missing: "\<not> truthy (env_apiKey env) \<longrightarrow>
      requests (fst (sendToOCR env base64)) = [] \<and>
      result_texts (fst (sendToOCR env base64)) = [JStr (fail_prefix @ msg_no_key)]"
    by (simp add: sendToOCR_trace sendToOCR_try_unconfigured sendToOCR_catch_eq
        error_message_def)
  from mount sendToOCR_config_reads pick gate missing show ?thesis
    by blast
qed

theorem credential_read_points_witness:
  "\<not> apiConfigured initial_screen \<and>
   \<not> truthy (env_apiKey (hello_env\<lparr>env_apiKey := None\<rparr>)) \<and>
   config_reads (useEffect_mount None) = 1 \<and>
   config_reads (fst (sendToOCR (hello_env\<lparr>env_apiKey := None\<rparr>) ''aGVsbG8='')) = 1 \<and>
   config_reads (fst (pickImage (hello_env\<lparr>env_apiKey := None\<rparr>) initial_screen)) = 0 \<and>
   requests (fst (sendToOCR (hello_env\<lparr>env_apiKey := None\<rparr>) ''aGVsbG8='')) = [] \<and>
   result_texts (fst (sendToOCR (hello_env\<lparr>env_apiKey := None\<rparr>) ''aGVsbG8=''))
     = [JStr (fail_prefix @ msg_no_key)]"
proof -
  have a: "\<not> apiConfigured initial_screen"
    by (simp add: initial_screen_def)
  have k: "\<not> truthy (env_apiKey (hello_env\<lparr>env_apiKey := None\<rparr>))"
    by (simp add: truthy_def)
  show ?thesis
    using a k
      credential_read_points [of None "hello_env\<lparr>env_apiKey := None\<rparr>" "''aGVsbG8=''"
        initial_screen]
    by simp
qed

subsection \<open>C9: \<open>isLoading\<close> and the requests in flight\<close>

lemma isLoading_exec: "isLoading (exec es s) = loading_after es (isLoading s)"
proof (induction es arbitrary: s)
  case Nil
  then show ?case by (simp add: exec_Nil)
next
  case (Cons e es)
  then show ?case by (cases e) (simp_all add: exec_Cons)
qed

lemma tracks_Nil: "trace_tracks_fetch b [] = (\<not> b)"
  by (simp add: trace_tracks_fetch_def)

lemma tracks_Cons:
  "trace_tracks_fetch b (e # es) =
     (if suspends e then b = is_fetch e \<and> trace_tracks_fetch (is_fetch e) es
      else trace_tracks_fetch (loading_after [e] b) es)"
proof (cases "split_at_awaits es")
  case (Pair segs fin)
  show ?thesis
  proof (cases "suspends e")
    case True
    with Pair show ?thesis
      by (cases e) (auto simp: trace_tracks_fetch_def)
  next
    case False
    with Pair show ?thesis
      by (cases segs; cases e) (auto simp: trace_tracks_fetch_def)
  qed
qed

lemma sendToOCR_tracks: "trace_tracks_fetch b (fst (sendToOCR env base64))"
proof (cases "truthy (env_apiKey env)")
  case False
  show ?thesis
    by (simp add: sendToOCR_trace sendToOCR_try_unconfigured [OF False] sendToOCR_catch_eq
        tracks_Cons tracks_Nil)
next
  case True
  then obtain key where key: "env_apiKey env = Some key" "truthy_value key"
    by (auto simp: truthy_def split: option.splits)
  show ?thesis
  proof (cases "env_fetch env (ocr_request key base64)")
    case (Inl e)
    show ?thesis
      by (simp add: sendToOCR_trace sendToOCR_try_rejected [OF key Inl] sendToOCR_catch_eq
          tracks_Cons tracks_Nil)
  next
    case (Inr res)
    from interpret_response_cases [of "env_type_error env" res] show ?thesis
    proof (elim disjE exE)
      fix e
      assume "interpret_response (env_type_error env) res = ([], Inl e)"
      then show ?thesis
        by (simp add: sendToOCR_trace sendToOCR_try_answered [OF key Inr] sendToOCR_catch_eq
            tracks_Cons tracks_Nil)
    next
      fix t
      assume "interpret_response (env_type_error env) res = ([SetOcrText t], Inr ())"
      then show ?thesis
        by (simp add: sendToOCR_trace sendToOCR_try_answered [OF key Inr] sendToOCR_catch_eq
            tracks_Cons tracks_Nil)
    qed
  qed
qed

lemma pickImage_tracks: "trace_tracks_fetch False (fst (pickImage env s))"
  unfolding pickImage_def pickImage_try_def pickImage_catch_def
  by (auto simp: comp_defs picker_call_def tracks_Cons tracks_Nil sendToOCR_tracks
      split: sum.splits option.splits picker_result.splits list.splits)

lemma advance_tracks:
  "loading_tracks_fetch (isLoading s) segs fin \<Longrightarrow> advance segs fin s = (s', ro) \<Longrightarrow>
     (case ro of
        None \<Rightarrow> \<not> isLoading s'
      | Some r \<Rightarrow>
          isLoading s' = is_fetch (awaiting r) \<and>
          loading_tracks_fetch (is_fetch (awaiting r)) (segments r) (final r))"
  by (cases segs) (auto simp: advance_def isLoading_exec)

lemma step_keeps_invariant:
  assumes inv: "one_run_invariant a"
    and early: "case x of
        Press env \<Rightarrow> list_all (\<lambda>r. is_fetch (awaiting r)) (runs a)
      | Settle i \<Rightarrow> True"
    and st: "step x a = Some a'"
  shows "one_run_invariant a'"
proof (cases x)
  case (Press env)
  from st Press have enabled: "\<not> button_disabled (screen a)"
    by (auto simp: step_def split: if_splits)
  then have quiet: "\<not> isLoading (screen a)"
    by (simp add: button_disabled_def)
  have idle: "runs a = []"
  proof (cases "runs a")
    case Nil
    then show ?thesis .
  next
    case (Cons r rs)
    with early Press have "is_fetch (awaiting r)"
      by simp
    with inv Cons quiet show ?thesis
      by (cases rs) (simp_all add: one_run_invariant_def)
  qed
  obtain segs fin where sp: "split_at_awaits (fst (pickImage env (screen a))) = (segs, fin)"
    by (cases "split_at_awaits (fst (pickImage env (screen a)))")
  obtain s' ro where adv: "advance segs fin (screen a) = (s', ro)"
    by (cases "advance segs fin (screen a)")
  have "loading_tracks_fetch (isLoading (screen a)) segs fin"
    using pickImage_tracks [of env "screen a"] sp quiet
    by (simp add: trace_tracks_fetch_def)
  from advance_tracks [OF this adv] st Press sp adv idle show ?thesis
    by (cases ro) (auto simp: step_def one_run_invariant_def split: if_splits)
next
  case (Settle i)
  with st have i: "i < length (runs a)"
    by (auto simp: step_def split: if_splits)
  with inv obtain r where r: "runs a = [r]" and i0: "i = 0"
    by (cases "runs a" rule: list.exhaust; cases "tl (runs a)")
       (auto simp: one_run_invariant_def split: list.splits)
  obtain s' ro where adv: "advance (segments r) (final r) (screen a) = (s', ro)"
    by (cases "advance (segments r) (final r) (screen a)")
  have "loading_tracks_fetch (isLoading (screen a)) (segments r) (final r)"
    using inv r by (simp add: one_run_invariant_def)
  from advance_tracks [OF this adv] st Settle r i0 adv show ?thesis
    by (cases ro) (auto simp: step_def one_run_invariant_def)
qed

lemma run_keeps_invariant:
  "one_run_invariant a0 \<Longrightarrow> no_press_before_request acts a0 \<Longrightarrow>
   run_actions acts a0 = Some a \<Longrightarrow> one_run_invariant a"
proof (induction acts arbitrary: a0)
  case Nil
  then show ?case by simp
next
  case (Cons x xs)
  from Cons.prems(3) obtain a1 where a1: "step x a0 = Some a1" "run_actions xs a1 = Some a"
    by (auto split: option.splits)
  from Cons.prems(2) a1 have early: "case x of
        Press env \<Rightarrow> list_all (\<lambda>r. is_fetch (awaiting r)) (runs a0)
      | Settle i \<Rightarrow> True"
    and rest: "no_press_before_request xs a1"
    by simp_all
  from step_keeps_invariant [OF Cons.prems(1) early a1(1)] rest a1(2) show ?case
    by (rule Cons.IH)
qed

lemma invariant_in_flight:
  "one_run_invariant a \<Longrightarrow> (isLoading (screen a) \<longleftrightarrow> in_flight a = 1) \<and> in_flight a \<le> 1"
  by (cases "runs a" rule: list.exhaust; cases "tl (runs a)")
     (auto simp: one_run_invariant_def in_flight_def split: list.splits)

text \<open>
  C9, as stated, fails when the button is pressed twice before the first run reaches
  \<open>sendToOCR\<close> (the button is enabled while a run waits for the permission or the
  picker): both runs issue their request, two are in flight, and when the first is
  answered \<open>isLoading\<close> is false while the second is still in flight.
\<close>

theorem overlapping_runs_break_invariant:
  "map_option (\<lambda>a. (isLoading (screen a), in_flight a))
     (run_actions [Press hello_env, Press hello_env, Settle 0, Settle 1, Settle 0, Settle 1]
        (mounted (Some (JStr ''KEY'')))) = Some (True, 2) \<and>
   map_option (\<lambda>a. (isLoading (screen a), in_flight a))
     (run_actions
        [Press hello_env, Press hello_env, Settle 0, Settle 1, Settle 0, Settle 1, Settle 0]
        (mounted (Some (JStr ''KEY'')))) = Some (False, 1)"
  by code_simp

text \<open>
  C9, amended. Suppose every press comes while no earlier run still waits for the
  permission prompt or the picker; a press while a request is in flight is not excluded.
  Then in every state reached from an idle screen \<open>isLoading\<close> is true if and only if
  one request is in flight, at most one is in flight, and while one is in flight a press
  starts nothing, because the button is disabled whenever \<open>isLoading\<close> is true.
\<close>

theorem loading_iff_in_flight:
  assumes "runs a0 = []" and "\<not> isLoading (screen a0)"
    and "no_press_before_request acts a0" and "run_actions acts a0 = Some a"
  shows "(isLoading (screen a) \<longleftrightarrow> in_flight a = 1) \<and> in_flight a \<le> 1 \<and>
     (0 < in_flight a \<longrightarrow> step (Press env) a = None) \<and>
     (isLoading (screen a) \<longrightarrow> button_disabled (screen a))"
proof -
  have "one_run_invariant a0"
    using assms(1,2) by (simp add: one_run_invariant_def)
  from run_keeps_invariant [OF this assms(3,4)] have "one_run_invariant a" .
  from invariant_in_flight [OF this] show ?thesis
    by (auto simp: step_def button_disabled_def)
qed

theorem loading_iff_in_flight_witness:
  "runs (mounted (Some (JStr ''KEY''))) = [] \<and>
   \<not> isLoading (screen (mounted (Some (JStr ''KEY'')))) \<and>
   no_press_before_request
     [Press hello_env, Settle 0, Settle 0, Settle 0, Press hello_env, Settle 0, Settle 0]
     (mounted (Some (JStr ''KEY''))) \<and>
   (case run_actions
       [Press hello_env, Settle 0, Settle 0, Settle 0, Press hello_env, Settle 0, Settle 0]
       (mounted (Some (JStr ''KEY''))) of
      None \<Rightarrow> False
    | Some a \<Rightarrow>
        isLoading (screen a) \<and> in_flight a = 1 \<and> step (Press hello_env) a = None)"
proof -
  let ?m = "mounted (Some (JStr ''KEY''))"
  let ?acts = "[Press hello_env, Settle 0, Settle 0, Settle 0, Press hello_env, Settle 0, Settle 0]"
  have idle: "runs ?m = []"
    by (simp add: mounted_def)
  have quiet: "\<not> isLoading (screen ?m)"
    by (simp add: mounted_def useEffect_mount_def truthy_def exec_def initial_screen_def)
  have early: "no_press_before_request ?acts ?m"
    by code_simp
  have loading: "map_option (\<lambda>a. isLoading (screen a)) (run_actions ?acts ?m) = Some True"
    by code_simp
  then obtain a where a: "run_actions ?acts ?m = Some a" and l: "isLoading (screen a)"
    by (cases "run_actions ?acts ?m") auto
  from loading_iff_in_flight [OF idle quiet early a, of hello_env] l idle quiet early a
  show ?thesis
    by simp
qed

end
